theory Spec2Isabelle
  imports Main "HOL-Library.Char_ord" "HOL-Library.List_Lexorder"
begin

section \<open>The module loader of wave/core/moduleloader\<close>

text \<open>
  A shallow embedding of \<^verbatim>\<open>module_loader.hpp\<close> and \<^verbatim>\<open>module_loader.cpp\<close> (the POSIX
  branch of every \<^verbatim>\<open>#ifdef _WIN32\<close>). The loader is a class with three data members
  that matter here: the registry \<^verbatim>\<open>CppLoadedModules\<close>, the subscriber list
  \<^verbatim>\<open>CppEventCallbacks\<close> and the pointer \<^verbatim>\<open>CppCoreAccess\<close>. Its member functions are
  modelled by explicit state passing. Everything the loader does to the outside (calls
  into the dynamic linker and into module code, calls of subscribed callbacks, lines
  written to \<^verbatim>\<open>std::cerr\<close>) is appended to traces kept beside the data members, so
  that statements of the form "the library is closed" or "an event is emitted" can be
  read off the final state.

  What the outside answers (whether \<^verbatim>\<open>dlopen\<close> succeeds, what the factory returns,
  whether \<^verbatim>\<open>initialize\<close> throws, ...) is not decided by the loader; every operation
  takes these answers as a parameter and the theorems quantify over them.
  The model is the sequential behaviour of one caller. In the loader operations the
  mutex is left out and a callback does not call back into the loader (the broadcasting
  call holds the mutex); the notifier is modelled a second time with the mutex and
  with callbacks that subscribe.
  \<^verbatim>\<open>getName\<close> and \<^verbatim>\<open>getVersion\<close> are taken to return normally, also where
  \<^verbatim>\<open>loadModule\<close> calls \<^verbatim>\<open>getName\<close> after the clean-up of a failed \<^verbatim>\<open>initialize\<close>.
\<close>

subsection \<open>Data model\<close>

text \<open>Raw pointers (\<^verbatim>\<open>void*\<close>, \<^verbatim>\<open>ILauncherModule*\<close>, function pointers): an address,
  with 0 for \<^verbatim>\<open>nullptr\<close>.\<close>

type_synonym ptr = nat

abbreviation nullptr :: ptr where
  "nullptr \<equiv> 0"

record ModuleInfo =
  name :: string
  version :: string
  path :: string
  libraryHandle :: ptr
  "instance" :: ptr

text \<open>The default constructor \<^verbatim>\<open>ModuleInfo()\<close>: empty strings, both pointers null.\<close>

definition ModuleInfo_default :: ModuleInfo where
  "ModuleInfo_default =
     \<lparr>name = [], version = [], path = [], libraryHandle = nullptr, instance = nullptr\<rparr>"

datatype Status = Success | NotFound | Error

text \<open>\<^verbatim>\<open>ModuleResult\<close>; its member \<^verbatim>\<open>data\<close> (a \<^verbatim>\<open>std::any\<close>) is never set by the loader
  and is left out.\<close>

record ModuleResult =
  status :: Status
  module :: "ModuleInfo option"
  message :: string

definition mkResult :: "Status \<Rightarrow> string \<Rightarrow> ModuleInfo option \<Rightarrow> ModuleResult" where
  "mkResult st msg mi = \<lparr>status = st, module = mi, message = msg\<rparr>"

datatype ModuleEventType = Loaded | Unloaded | Reloaded | ErrorLoading | ErrorUnloading

text \<open>The three arguments of one \<^verbatim>\<open>broadcastEvent\<close> call, which are also the three
  arguments every callback receives.\<close>

type_synonym ModuleEvent = "ModuleEventType \<times> ModuleInfo \<times> string"

text \<open>C++ exceptions as values: one derived from \<^verbatim>\<open>std::exception\<close> (with its
  \<^verbatim>\<open>what()\<close> text), or anything else.\<close>

datatype exn = StdException string | OtherException

datatype 'a outcome = Returns 'a | Throws exn

text \<open>A subscribed \<^verbatim>\<open>std::function\<close>: called with the event, it returns normally
  (\<open>None\<close>) or throws.\<close>

type_synonym ModuleEventCallback = "ModuleEventType \<Rightarrow> ModuleInfo \<Rightarrow> string \<Rightarrow> exn option"

text \<open>Calls that leave the loader, in the order they are made.\<close>

datatype ext_call =
    Dlopen string
  | Dlsym ptr string
  | Dlclose ptr
  | Dlerror
  | CreateFunc
  | Initialize ptr ptr
  | GetName ptr
  | GetVersion ptr
  | Shutdown ptr
  | DestroyFunc ptr

record ModuleLoaderSystem =
  CppLoadedModules :: "(string \<times> ModuleInfo) list"
  CppEventCallbacks :: "ModuleEventCallback list"
  CppCoreAccess :: ptr
  ext_calls :: "ext_call list"
  broadcasts :: "ModuleEvent list"
  callback_calls :: "(nat \<times> ModuleEvent) list"
  cerr :: "string list"

definition CREATE_MODULE_FUNC_NAME :: string where
  "CREATE_MODULE_FUNC_NAME = ''create_module_instance''"

definition DESTROY_MODULE_FUNC_NAME :: string where
  "DESTROY_MODULE_FUNC_NAME = ''destroy_module_instance''"

subsection \<open>The registry: a \<^verbatim>\<open>std::map\<close> keyed by module name\<close>

text \<open>
  \<^verbatim>\<open>std::map<std::string, ModuleInfo>\<close> is modelled by the list of its entries in
  iteration order, that is by ascending key (strings compare bytewise and
  lexicographically). \<open>map_find\<close> is \<^verbatim>\<open>find\<close>, \<open>map_count\<close> is \<^verbatim>\<open>count\<close>,
  \<open>map_assign\<close> is \<^verbatim>\<open>m[k] = v\<close>, \<open>map_erase\<close> is \<^verbatim>\<open>erase(k)\<close>.
\<close>

fun map_find :: "string \<Rightarrow> (string \<times> ModuleInfo) list \<Rightarrow> ModuleInfo option" where
  "map_find k [] = None"
| "map_find k ((k', v) # m) = (if k = k' then Some v else map_find k m)"

definition map_count :: "string \<Rightarrow> (string \<times> ModuleInfo) list \<Rightarrow> nat" where
  "map_count k m = (case map_find k m of None \<Rightarrow> 0 | Some v \<Rightarrow> 1)"

fun map_assign :: "string \<Rightarrow> ModuleInfo \<Rightarrow> (string \<times> ModuleInfo) list \<Rightarrow> (string \<times> ModuleInfo) list" where
  "map_assign k v [] = [(k, v)]"
| "map_assign k v ((k', v') # m) =
     (if k = k' then (k, v) # m
      else if k < k' then (k, v) # (k', v') # m
      else (k', v') # map_assign k v m)"

fun map_erase :: "string \<Rightarrow> (string \<times> ModuleInfo) list \<Rightarrow> (string \<times> ModuleInfo) list" where
  "map_erase k [] = []"
| "map_erase k ((k', v) # m) = (if k = k' then m else (k', v) # map_erase k m)"

subsection \<open>Effects\<close>

definition os_call :: "ext_call \<Rightarrow> ModuleLoaderSystem \<Rightarrow> ModuleLoaderSystem" where
  "os_call c s = s\<lparr>ext_calls := ext_calls s @ [c]\<rparr>"

definition write_cerr :: "string \<Rightarrow> ModuleLoaderSystem \<Rightarrow> ModuleLoaderSystem" where
  "write_cerr l s = s\<lparr>cerr := cerr s @ [l]\<rparr>"

subsection \<open>\<^verbatim>\<open>broadcastEvent\<close>\<close>

text \<open>
  One pass of the loop body: the \<^verbatim>\<open>try\<close> block calls the callback, the two handlers
  write to \<^verbatim>\<open>std::cerr\<close>. The first component of the result is the exception that
  leaves the statement, if any.
\<close>

definition try_callback ::
  "nat \<Rightarrow> ModuleEventCallback \<Rightarrow> ModuleEvent \<Rightarrow> ModuleLoaderSystem \<Rightarrow> exn option \<times> ModuleLoaderSystem" where
  "try_callback i callback ev s =
     (let s1 = s\<lparr>callback_calls := callback_calls s @ [(i, ev)]\<rparr>
      in case callback (fst ev) (fst (snd ev)) (snd (snd ev)) of
           None \<Rightarrow> (None, s1)
         | Some (StdException what) \<Rightarrow>
             (None, write_cerr (''Exception in ModuleEventCallback: '' @ what) s1)
         | Some OtherException \<Rightarrow>
             (None, write_cerr ''Unknown exception in ModuleEventCallback.'' s1))"

text \<open>The range-for over \<^verbatim>\<open>callbacks_copy\<close>; an exception leaving the body would end
  the loop and leave the function. The first argument counts the position in the list.\<close>

fun for_each_callback ::
  "nat \<Rightarrow> ModuleEventCallback list \<Rightarrow> ModuleEvent \<Rightarrow> ModuleLoaderSystem \<Rightarrow> exn option \<times> ModuleLoaderSystem" where
  "for_each_callback i [] ev s = (None, s)"
| "for_each_callback i (callback # rest) ev s =
     (case try_callback i callback ev s of
        (Some e, s') \<Rightarrow> (Some e, s')
      | (None, s') \<Rightarrow> for_each_callback (Suc i) rest ev s')"

definition broadcastEvent_body ::
  "ModuleEventType \<Rightarrow> ModuleInfo \<Rightarrow> string \<Rightarrow> ModuleLoaderSystem \<Rightarrow> exn option \<times> ModuleLoaderSystem" where
  "broadcastEvent_body type info msg s =
     (let callbacks_copy = CppEventCallbacks s;
          s1 = s\<lparr>broadcasts := broadcasts s @ [(type, info, msg)]\<rparr>
      in for_each_callback 0 callbacks_copy (type, info, msg) s1)"

text \<open>\<^verbatim>\<open>broadcastEvent\<close> as its callers see it: a \<^verbatim>\<open>void\<close> function; they go on in the
  state it leaves (that no exception leaves it is \<open>broadcastEvent_body_returns\<close>
  below).\<close>

definition broadcastEvent ::
  "ModuleEventType \<Rightarrow> ModuleInfo \<Rightarrow> string \<Rightarrow> ModuleLoaderSystem \<Rightarrow> ModuleLoaderSystem" where
  "broadcastEvent type info msg s = snd (broadcastEvent_body type info msg s)"

subsection \<open>Constructor and \<^verbatim>\<open>subscribeToModuleEvents\<close>\<close>

definition ModuleLoaderSystem_ctor :: "ptr \<Rightarrow> ModuleLoaderSystem" where
  "ModuleLoaderSystem_ctor coreAccess =
     \<lparr>CppLoadedModules = [], CppEventCallbacks = [], CppCoreAccess = coreAccess,
      ext_calls = [], broadcasts = [], callback_calls = [], cerr = []\<rparr>"

definition subscribeToModuleEvents :: "ModuleEventCallback \<Rightarrow> ModuleLoaderSystem \<Rightarrow> ModuleLoaderSystem" where
  "subscribeToModuleEvents callback s = s\<lparr>CppEventCallbacks := CppEventCallbacks s @ [callback]\<rparr>"

definition listModules :: "ModuleLoaderSystem \<Rightarrow> ModuleInfo list" where
  "listModules s = map snd (CppLoadedModules s)"

subsection \<open>What the outside answers\<close>

text \<open>
  The answers one \<^verbatim>\<open>loadModule\<close> call gets: the handle from \<^verbatim>\<open>dlopen\<close> (null on
  failure) and the \<^verbatim>\<open>dlerror()\<close> text after a failed \<^verbatim>\<open>dlopen\<close>; the two function
  pointers from \<^verbatim>\<open>dlsym\<close> (null when the symbol is absent) and what \<^verbatim>\<open>dlerror()\<close>
  returns after them (possibly a null pointer, \<open>None\<close>); what the factory does; what
  \<^verbatim>\<open>initialize\<close> does; the strings \<^verbatim>\<open>getName()\<close> and \<^verbatim>\<open>getVersion()\<close> return.
\<close>

record LoadEnv =
  dlopen_result :: ptr
  dlopen_error :: string
  dlsym_create :: ptr
  dlsym_destroy :: ptr
  dlsym_error :: "string option"
  createFunc_outcome :: "ptr outcome"
  initialize_outcome :: "unit outcome"
  getName_result :: string
  getVersion_result :: string

text \<open>
  The answers one \<^verbatim>\<open>internalUnloadModule\<close> call gets: what \<^verbatim>\<open>shutdown\<close> does, the
  pointer \<^verbatim>\<open>dlsym\<close> finds for the destructor symbol, what the destructor does, the
  return value of \<^verbatim>\<open>dlclose\<close> (0 on success) and the \<^verbatim>\<open>dlerror()\<close> text after a
  failed \<^verbatim>\<open>dlclose\<close>.
\<close>

record UnloadEnv =
  shutdown_outcome :: "unit outcome"
  unload_dlsym_destroy :: ptr
  destroyFunc_outcome :: "unit outcome"
  dlclose_result :: int
  dlclose_error :: string

subsection \<open>\<^verbatim>\<open>loadModule\<close>\<close>

text \<open>The destructor call of the clean-up paths:
  \<^verbatim>\<open>if (destroyFunc) { try { destroyFunc(moduleInstance); } catch(...) {} }\<close>.\<close>

definition cleanup_destroy :: "ptr \<Rightarrow> ptr \<Rightarrow> ModuleLoaderSystem \<Rightarrow> ModuleLoaderSystem" where
  "cleanup_destroy destroyFunc moduleInstance s =
     (if destroyFunc \<noteq> nullptr then os_call (DestroyFunc moduleInstance) s else s)"

text \<open>The common tail of every failing path after the path check: an \<^verbatim>\<open>errorInfo\<close>,
  the \<^verbatim>\<open>ErrorLoading\<close> broadcast, the \<^verbatim>\<open>Error\<close> result.\<close>

definition load_error ::
  "ModuleInfo \<Rightarrow> string \<Rightarrow> ModuleLoaderSystem \<Rightarrow> ModuleResult \<times> ModuleLoaderSystem" where
  "load_error errorInfo errorMsg s =
     (mkResult Error errorMsg (Some errorInfo), broadcastEvent ErrorLoading errorInfo errorMsg s)"

text \<open>From the call of \<^verbatim>\<open>initialize\<close> to the end (lines 129 to 193).\<close>

definition loadModule_initialize ::
  "LoadEnv \<Rightarrow> string \<Rightarrow> ptr \<Rightarrow> ptr \<Rightarrow> ptr \<Rightarrow> ModuleLoaderSystem \<Rightarrow> ModuleResult \<times> ModuleLoaderSystem" where
  "loadModule_initialize env modulePath libHandle destroyFunc moduleInstance s =
     (let s1 = os_call (Initialize moduleInstance (CppCoreAccess s)) s
      in case initialize_outcome env of
           Throws e \<Rightarrow>
             (let s2 = cleanup_destroy destroyFunc moduleInstance s1;
                  s3 = os_call (Dlclose libHandle) s2;
                  s4 = os_call (GetName moduleInstance) s3;
                  errorMsg = (case e of
                      StdException what \<Rightarrow>
                        ''Module '' @ getName_result env @ '' initialize() failed: '' @ what
                    | OtherException \<Rightarrow>
                        ''Module '' @ getName_result env @ '' initialize() failed with unknown exception.'');
                  s5 = os_call (GetName moduleInstance) s4;
                  errorInfo = ModuleInfo_default\<lparr>path := modulePath, name := getName_result env\<rparr>
              in load_error errorInfo errorMsg s5)
         | Returns u \<Rightarrow>
             (let s2 = os_call (GetName moduleInstance) s1;
                  moduleName = getName_result env
              in if map_count moduleName (CppLoadedModules s2) \<noteq> 0 then
                   (let s3 = cleanup_destroy destroyFunc moduleInstance s2;
                        s4 = os_call (Dlclose libHandle) s3;
                        errorMsg = ''Module with name '' @ [CHR 0x27] @ moduleName @ [CHR 0x27]
                                   @ '' already loaded. Module names must be unique.'';
                        errorInfo = ModuleInfo_default\<lparr>path := modulePath, name := moduleName\<rparr>
                    in load_error errorInfo errorMsg s4)
                 else
                   (let s3 = os_call (GetVersion moduleInstance) s2;
                        info = ModuleInfo_default\<lparr>path := modulePath, libraryHandle := libHandle,
                                 instance := moduleInstance, name := moduleName,
                                 version := getVersion_result env\<rparr>;
                        s4 = s3\<lparr>CppLoadedModules := map_assign (name info) info (CppLoadedModules s3)\<rparr>;
                        s5 = broadcastEvent Loaded info ''Module loaded successfully.'' s4
                    in (mkResult Success ''Module loaded successfully.'' (Some info), s5))))"

text \<open>From the two \<^verbatim>\<open>dlsym\<close> calls to the null check of the instance (lines 63 to 127).\<close>

definition loadModule_create ::
  "LoadEnv \<Rightarrow> string \<Rightarrow> ptr \<Rightarrow> ModuleLoaderSystem \<Rightarrow> ModuleResult \<times> ModuleLoaderSystem" where
  "loadModule_create env modulePath libHandle s =
     (let s1 = os_call (Dlsym libHandle CREATE_MODULE_FUNC_NAME) s;
          createFunc = dlsym_create env;
          s2 = os_call (Dlsym libHandle DESTROY_MODULE_FUNC_NAME) s1;
          destroyFunc = dlsym_destroy env
      in if createFunc = nullptr then
           (let errorMsg0 = ''Failed to find '' @ [CHR 0x27] @ CREATE_MODULE_FUNC_NAME @ [CHR 0x27]
                            @ '' in '' @ modulePath;
                s3 = os_call Dlerror s2;
                errorMsg = (case dlsym_error env of
                    None \<Rightarrow> errorMsg0
                  | Some dlsym_err \<Rightarrow> errorMsg0 @ '' (dlsym Error: '' @ dlsym_err @ '')'');
                s4 = os_call (Dlclose libHandle) s3
            in load_error (ModuleInfo_default\<lparr>path := modulePath\<rparr>) errorMsg s4)
         else
           (let s3 = os_call CreateFunc s2
            in case createFunc_outcome env of
                 Throws e \<Rightarrow>
                   (let s4 = os_call (Dlclose libHandle) s3;
                        errorMsg = (case e of
                            StdException what \<Rightarrow>
                              CREATE_MODULE_FUNC_NAME @ '' threw an exception: '' @ what
                          | OtherException \<Rightarrow>
                              CREATE_MODULE_FUNC_NAME @ '' threw an unknown exception.'')
                    in load_error (ModuleInfo_default\<lparr>path := modulePath\<rparr>) errorMsg s4)
               | Returns moduleInstance \<Rightarrow>
                   if moduleInstance = nullptr then
                     (let s4 = os_call (Dlclose libHandle) s3;
                          errorMsg = CREATE_MODULE_FUNC_NAME @ '' returned nullptr from '' @ modulePath
                      in load_error (ModuleInfo_default\<lparr>path := modulePath\<rparr>) errorMsg s4)
                   else loadModule_initialize env modulePath libHandle destroyFunc moduleInstance s3))"

text \<open>The whole function: the scan for the path, \<^verbatim>\<open>dlopen\<close>, then the rest.\<close>

definition loadModule ::
  "LoadEnv \<Rightarrow> string \<Rightarrow> ModuleLoaderSystem \<Rightarrow> ModuleResult \<times> ModuleLoaderSystem" where
  "loadModule env modulePath s =
     (case List.find (\<lambda>pair. path (snd pair) = modulePath) (CppLoadedModules s) of
        Some pair \<Rightarrow>
          (mkResult Error (''Module from this path is already loaded: '' @ modulePath)
             (Some (snd pair)), s)
      | None \<Rightarrow>
          (let s1 = os_call (Dlopen modulePath) s;
               libHandle = dlopen_result env
           in if libHandle = nullptr then
                (let s2 = os_call Dlerror s1;
                     errorMsg = ''Failed to load library: '' @ modulePath
                                @ '' (Error: '' @ dlopen_error env @ '')''
                 in load_error (ModuleInfo_default\<lparr>path := modulePath\<rparr>) errorMsg s2)
              else loadModule_create env modulePath libHandle s1))"

subsection \<open>\<^verbatim>\<open>internalUnloadModule\<close> and \<^verbatim>\<open>unloadModule\<close>\<close>

text \<open>The \<^verbatim>\<open>try\<close> statement around \<^verbatim>\<open>shutdown()\<close> (lines 209 to 226): both handlers
  broadcast \<^verbatim>\<open>ErrorUnloading\<close> and fall through.\<close>

definition unload_shutdown ::
  "UnloadEnv \<Rightarrow> string \<Rightarrow> ModuleInfo \<Rightarrow> ModuleLoaderSystem \<Rightarrow> ModuleLoaderSystem" where
  "unload_shutdown env moduleName infoToUnload s =
     (if instance infoToUnload \<noteq> nullptr then
        (let s1 = os_call (Shutdown (instance infoToUnload)) s
         in case shutdown_outcome env of
              Returns u \<Rightarrow> s1
            | Throws (StdException what) \<Rightarrow>
                broadcastEvent ErrorUnloading infoToUnload
                  (''Exception during '' @ moduleName @ ''->shutdown(): '' @ what) s1
            | Throws OtherException \<Rightarrow>
                broadcastEvent ErrorUnloading infoToUnload
                  (''Unknown exception during '' @ moduleName @ ''->shutdown().'') s1)
      else s)"

text \<open>The destructor symbol is looked up again and called (lines 228 to 257).\<close>

definition unload_destroy ::
  "UnloadEnv \<Rightarrow> string \<Rightarrow> ModuleInfo \<Rightarrow> ModuleLoaderSystem \<Rightarrow> ModuleLoaderSystem" where
  "unload_destroy env moduleName infoToUnload s =
     (let s1 = (if libraryHandle infoToUnload \<noteq> nullptr
                then os_call (Dlsym (libraryHandle infoToUnload) DESTROY_MODULE_FUNC_NAME) s
                else s);
          destroyFunc = (if libraryHandle infoToUnload \<noteq> nullptr
                         then unload_dlsym_destroy env else nullptr)
      in if destroyFunc \<noteq> nullptr \<and> instance infoToUnload \<noteq> nullptr then
           (let s2 = os_call (DestroyFunc (instance infoToUnload)) s1
            in case destroyFunc_outcome env of
                 Returns u \<Rightarrow> s2
               | Throws (StdException what) \<Rightarrow>
                   broadcastEvent ErrorUnloading infoToUnload
                     (DESTROY_MODULE_FUNC_NAME @ '' threw an exception for module '' @ moduleName
                      @ '': '' @ what) s2
               | Throws OtherException \<Rightarrow>
                   broadcastEvent ErrorUnloading infoToUnload
                     (DESTROY_MODULE_FUNC_NAME @ '' threw an unknown exception for module ''
                      @ moduleName @ ''.'') s2)
         else s1)"

text \<open>The end of the function, once the library is closed (lines 279 to 285).\<close>

definition unload_finish ::
  "string \<Rightarrow> bool \<Rightarrow> ModuleInfo \<Rightarrow> ModuleLoaderSystem \<Rightarrow> ModuleResult \<times> ModuleLoaderSystem" where
  "unload_finish moduleName isReloading infoToUnload s =
     (let infoToUnload1 = infoToUnload\<lparr>libraryHandle := nullptr\<rparr>;
          s1 = s\<lparr>CppLoadedModules := map_erase moduleName (CppLoadedModules s)\<rparr>;
          s2 = (if \<not> isReloading
                then broadcastEvent Unloaded infoToUnload1 ''Module unloaded successfully.'' s1
                else s1)
      in (mkResult Success ''Module unloaded successfully.'' (Some infoToUnload1), s2))"

definition internalUnloadModule ::
  "UnloadEnv \<Rightarrow> string \<Rightarrow> bool \<Rightarrow> ModuleLoaderSystem \<Rightarrow> ModuleResult \<times> ModuleLoaderSystem" where
  "internalUnloadModule env moduleName isReloading s =
     (case map_find moduleName (CppLoadedModules s) of
        None \<Rightarrow>
          (let s1 = (if \<not> isReloading
                     then broadcastEvent ErrorUnloading (ModuleInfo_default\<lparr>name := moduleName\<rparr>)
                            ''Module not found for unloading.'' s
                     else s)
           in (mkResult NotFound (''Module not found: '' @ moduleName) None, s1))
      | Some infoToUnload \<Rightarrow>
          (let s1 = unload_shutdown env moduleName infoToUnload s;
               s2 = unload_destroy env moduleName infoToUnload s1;
               infoToUnload1 = infoToUnload\<lparr>instance := nullptr\<rparr>
           in if libraryHandle infoToUnload1 \<noteq> nullptr then
                (let s3 = os_call (Dlclose (libraryHandle infoToUnload1)) s2
                 in if dlclose_result env \<noteq> 0 then
                      (let s4 = os_call Dlerror s3;
                           errorMsg = ''Failed to free library for module '' @ moduleName
                                      @ '' (Error: '' @ dlclose_error env @ '')'';
                           s5 = broadcastEvent ErrorUnloading infoToUnload1 errorMsg s4
                       in (mkResult Error errorMsg (Some infoToUnload1), s5))
                    else unload_finish moduleName isReloading infoToUnload1 s3)
              else unload_finish moduleName isReloading infoToUnload1 s2))"

definition unloadModule ::
  "UnloadEnv \<Rightarrow> string \<Rightarrow> ModuleLoaderSystem \<Rightarrow> ModuleResult \<times> ModuleLoaderSystem" where
  "unloadModule env moduleName s = internalUnloadModule env moduleName False s"

subsection \<open>\<^verbatim>\<open>reloadModule\<close>\<close>

text \<open>
  \<^verbatim>\<open>loadRes.module.value()\<close> throws \<^verbatim>\<open>std::bad_optional_access\<close> on an empty optional,
  so the result of \<open>reloadModule\<close> is an exception or a \<^verbatim>\<open>ModuleResult\<close>.
\<close>

definition reloadModule ::
  "UnloadEnv \<Rightarrow> LoadEnv \<Rightarrow> string \<Rightarrow> ModuleLoaderSystem \<Rightarrow> (exn + ModuleResult) \<times> ModuleLoaderSystem" where
  "reloadModule uenv lenv moduleName s =
     (case map_find moduleName (CppLoadedModules s) of
        None \<Rightarrow>
          (Inr (mkResult NotFound (''Module not found for reload: '' @ moduleName)
                  (Some (ModuleInfo_default\<lparr>name := moduleName\<rparr>))), s)
      | Some found \<Rightarrow>
          (let modulePath = path found;
               (unloadRes, s1) = internalUnloadModule uenv moduleName True s
           in if status unloadRes \<noteq> Success then
                (let info = (case module unloadRes of Some mi \<Rightarrow> mi | None \<Rightarrow> ModuleInfo_default)
                              \<lparr>name := moduleName, path := modulePath\<rparr>;
                     s2 = broadcastEvent ErrorUnloading info
                            (''Failed to unload module during reload: '' @ message unloadRes) s1
                 in (Inr (mkResult Error (''Reload failed during unload phase: '' @ message unloadRes)
                            (Some info)), s2))
              else
                (let (loadRes, s2) = loadModule lenv modulePath s1
                 in if status loadRes = Success then
                      (case module loadRes of
                         None \<Rightarrow> (Inl (StdException ''bad optional access''), s2)
                       | Some mi \<Rightarrow>
                           (let s3 = broadcastEvent Reloaded mi ''Module reloaded successfully.'' s2
                            in (Inr (mkResult Success ''Module reloaded successfully.'' (module loadRes)), s3)))
                    else
                      (let info = ModuleInfo_default\<lparr>name := moduleName, path := modulePath\<rparr>;
                           s3 = broadcastEvent ErrorLoading info
                                  (''Failed to load module during reload: '' @ message loadRes) s2
                       in (Inr (mkResult Error (''Reload failed during load phase: '' @ message loadRes)
                                  (Some info)), s3)))))"

subsection \<open>The destructor \<^verbatim>\<open>~ModuleLoaderSystem\<close>\<close>

text \<open>
  The names are copied out of the map first, in key order; each is passed to
  \<^verbatim>\<open>internalUnloadModule(name, true)\<close>, whose result is discarded; then the map is
  cleared. The first parameter gives the answers of the outside for each name.
\<close>

fun unload_each :: "(string \<Rightarrow> UnloadEnv) \<Rightarrow> string list \<Rightarrow> ModuleLoaderSystem \<Rightarrow> ModuleLoaderSystem" where
  "unload_each env [] s = s"
| "unload_each env (moduleName # moduleNames) s =
     unload_each env moduleNames (snd (internalUnloadModule (env moduleName) moduleName True s))"

definition ModuleLoaderSystem_dtor :: "(string \<Rightarrow> UnloadEnv) \<Rightarrow> ModuleLoaderSystem \<Rightarrow> ModuleLoaderSystem" where
  "ModuleLoaderSystem_dtor env s =
     (let moduleNames = map fst (CppLoadedModules s);
          s1 = unload_each env moduleNames s
      in s1\<lparr>CppLoadedModules := []\<rparr>)"

subsection \<open>Sequences of calls on one loader\<close>

datatype operation =
    Load string LoadEnv
  | Unload string UnloadEnv
  | Reload string UnloadEnv LoadEnv
  | Subscribe ModuleEventCallback

fun apply_operation :: "operation \<Rightarrow> ModuleLoaderSystem \<Rightarrow> ModuleLoaderSystem" where
  "apply_operation (Load modulePath lenv) s = snd (loadModule lenv modulePath s)"
| "apply_operation (Unload moduleName uenv) s = snd (unloadModule uenv moduleName s)"
| "apply_operation (Reload moduleName uenv lenv) s = snd (reloadModule uenv lenv moduleName s)"
| "apply_operation (Subscribe callback) s = subscribeToModuleEvents callback s"

fun run :: "operation list \<Rightarrow> ModuleLoaderSystem \<Rightarrow> ModuleLoaderSystem" where
  "run [] s = s"
| "run (operation # rest) s = run rest (apply_operation operation s)"

subsection \<open>The notifier with the mutex and with callbacks that subscribe\<close>

text \<open>
  The loader operations above are modelled for callbacks that only return or throw. To
  say what the copy in \<^verbatim>\<open>broadcastEvent\<close> is for, the two member functions that touch
  \<^verbatim>\<open>CppEventCallbacks\<close> are modelled once more, now with \<^verbatim>\<open>CppModuleMutex\<close> and with
  callbacks that call \<^verbatim>\<open>subscribeToModuleEvents\<close> while they run.

  A call either completes or never returns: \<^verbatim>\<open>std::lock_guard\<close> on a \<^verbatim>\<open>std::mutex\<close>
  that the calling thread already holds does not come back.
\<close>

datatype 'a completion = Completes 'a | NeverReturns

text \<open>A subscribed \<^verbatim>\<open>std::function\<close> of this kind: called with the event, it passes
  the callbacks of the list to \<^verbatim>\<open>subscribeToModuleEvents\<close>, one after the other, and
  then returns normally (\<open>None\<close>) or throws.\<close>

datatype ReentrantCallback =
  Reentrant "ModuleEventType \<Rightarrow> ModuleInfo \<Rightarrow> string \<Rightarrow> ReentrantCallback list \<times> exn option"

fun subscriptions :: "ReentrantCallback \<Rightarrow> ModuleEvent \<Rightarrow> ReentrantCallback list" where
  "subscriptions (Reentrant f) ev = fst (f (fst ev) (fst (snd ev)) (snd (snd ev)))"

fun raised :: "ReentrantCallback \<Rightarrow> ModuleEvent \<Rightarrow> exn option" where
  "raised (Reentrant f) ev = snd (f (fst ev) (fst (snd ev)) (snd (snd ev)))"

text \<open>The members \<^verbatim>\<open>CppEventCallbacks\<close> and \<^verbatim>\<open>CppModuleMutex\<close>, with the trace of
  callback calls and the lines on \<^verbatim>\<open>std::cerr\<close>.\<close>

record Notifier =
  notifier_callbacks :: "ReentrantCallback list"
  mutex_locked :: bool
  notifier_calls :: "(nat \<times> ModuleEvent) list"
  notifier_cerr :: "string list"

text \<open>\<^verbatim>\<open>subscribeToModuleEvents\<close>: the \<^verbatim>\<open>lock_guard\<close> takes the mutex, \<^verbatim>\<open>push_back\<close>
  appends, the guard's destructor releases the mutex.\<close>

definition subscribeToModuleEvents_locking ::
  "ReentrantCallback \<Rightarrow> Notifier \<Rightarrow> unit completion \<times> Notifier" where
  "subscribeToModuleEvents_locking callback n =
     (if mutex_locked n then (NeverReturns, n)
      else
        (let n1 = n\<lparr>mutex_locked := True\<rparr>;
             n2 = n1\<lparr>notifier_callbacks := notifier_callbacks n1 @ [callback]\<rparr>;
             n3 = n2\<lparr>mutex_locked := False\<rparr>
         in (Completes (), n3)))"

text \<open>What a callback does when called: its subscriptions in order, then its outcome.\<close>

fun run_subscriptions :: "ReentrantCallback list \<Rightarrow> Notifier \<Rightarrow> unit completion \<times> Notifier" where
  "run_subscriptions [] n = (Completes (), n)"
| "run_subscriptions (c # cs) n =
     (case subscribeToModuleEvents_locking c n of
        (NeverReturns, n') \<Rightarrow> (NeverReturns, n')
      | (Completes u, n') \<Rightarrow> run_subscriptions cs n')"

definition call_callback ::
  "ReentrantCallback \<Rightarrow> ModuleEvent \<Rightarrow> Notifier \<Rightarrow> exn option completion \<times> Notifier" where
  "call_callback callback ev n =
     (case run_subscriptions (subscriptions callback ev) n of
        (NeverReturns, n') \<Rightarrow> (NeverReturns, n')
      | (Completes u, n') \<Rightarrow> (Completes (raised callback ev), n'))"

text \<open>The \<^verbatim>\<open>try\<close> statement of the loop body, the loop over \<^verbatim>\<open>callbacks_copy\<close>, and
  \<^verbatim>\<open>broadcastEvent\<close>, which touches the mutex nowhere: it runs with the mutex as its
  caller left it (every caller in \<^verbatim>\<open>module_loader.cpp\<close> holds it).\<close>

definition try_callback_locking ::
  "nat \<Rightarrow> ReentrantCallback \<Rightarrow> ModuleEvent \<Rightarrow> Notifier \<Rightarrow> exn option completion \<times> Notifier" where
  "try_callback_locking i callback ev n =
     (let n1 = n\<lparr>notifier_calls := notifier_calls n @ [(i, ev)]\<rparr>
      in case call_callback callback ev n1 of
           (NeverReturns, n2) \<Rightarrow> (NeverReturns, n2)
         | (Completes None, n2) \<Rightarrow> (Completes None, n2)
         | (Completes (Some (StdException what)), n2) \<Rightarrow>
             (Completes None,
              n2\<lparr>notifier_cerr := notifier_cerr n2 @ [''Exception in ModuleEventCallback: '' @ what]\<rparr>)
         | (Completes (Some OtherException), n2) \<Rightarrow>
             (Completes None,
              n2\<lparr>notifier_cerr := notifier_cerr n2 @ [''Unknown exception in ModuleEventCallback.'']\<rparr>))"

fun for_each_callback_locking ::
  "nat \<Rightarrow> ReentrantCallback list \<Rightarrow> ModuleEvent \<Rightarrow> Notifier \<Rightarrow> exn option completion \<times> Notifier" where
  "for_each_callback_locking i [] ev n = (Completes None, n)"
| "for_each_callback_locking i (callback # rest) ev n =
     (case try_callback_locking i callback ev n of
        (NeverReturns, n') \<Rightarrow> (NeverReturns, n')
      | (Completes (Some e), n') \<Rightarrow> (Completes (Some e), n')
      | (Completes None, n') \<Rightarrow> for_each_callback_locking (Suc i) rest ev n')"

definition broadcastEvent_locking ::
  "ModuleEventType \<Rightarrow> ModuleInfo \<Rightarrow> string \<Rightarrow> Notifier \<Rightarrow> exn option completion \<times> Notifier" where
  "broadcastEvent_locking type info msg n =
     (let callbacks_copy = notifier_callbacks n
      in for_each_callback_locking 0 callbacks_copy (type, info, msg) n)"

text \<open>The line an outcome leaves on \<^verbatim>\<open>std::cerr\<close>.\<close>

definition cerr_report :: "exn option \<Rightarrow> string list" where
  "cerr_report outcome =
     (case outcome of
        None \<Rightarrow> []
      | Some (StdException what) \<Rightarrow> [''Exception in ModuleEventCallback: '' @ what]
      | Some OtherException \<Rightarrow> [''Unknown exception in ModuleEventCallback.''])"

text \<open>A callback of the loader model seen as one that subscribes nothing, and the
  notifier part of a loader state.\<close>

definition plain_callback :: "ModuleEventCallback \<Rightarrow> ReentrantCallback" where
  "plain_callback cb = Reentrant (\<lambda>type info msg. ([], cb type info msg))"

definition notifier_of :: "bool \<Rightarrow> ModuleLoaderSystem \<Rightarrow> Notifier" where
  "notifier_of locked s =
     \<lparr>notifier_callbacks = map plain_callback (CppEventCallbacks s), mutex_locked = locked,
      notifier_calls = callback_calls s, notifier_cerr = cerr s\<rparr>"

subsection \<open>Auxiliary notions for the statements\<close>

text \<open>The line a callback's exception leaves on \<^verbatim>\<open>std::cerr\<close>, if it throws.\<close>

definition cerr_line :: "ModuleEventCallback \<Rightarrow> ModuleEvent \<Rightarrow> string list" where
  "cerr_line cb ev =
     (case cb (fst ev) (fst (snd ev)) (snd (snd ev)) of
        None \<Rightarrow> []
      | Some (StdException what) \<Rightarrow> [''Exception in ModuleEventCallback: '' @ what]
      | Some OtherException \<Rightarrow> [''Unknown exception in ModuleEventCallback.''])"

text \<open>The events broadcast between two states of one loader, and how many of them
  have a given type.\<close>

definition events_since :: "ModuleLoaderSystem \<Rightarrow> ModuleLoaderSystem \<Rightarrow> ModuleEvent list" where
  "events_since s s' = drop (length (broadcasts s)) (broadcasts s')"

definition count_events :: "ModuleEventType \<Rightarrow> ModuleEvent list \<Rightarrow> nat" where
  "count_events t evs = length (filter (\<lambda>ev. fst ev = t) evs)"

text \<open>
  The invariant of the registry: keys strictly ascending (what \<^verbatim>\<open>std::map\<close>
  maintains), every descriptor filed under its own name with both pointers set, and
  no path twice.
\<close>

definition registry_wf :: "(string \<times> ModuleInfo) list \<Rightarrow> bool" where
  "registry_wf m \<longleftrightarrow>
     sorted_wrt (<) (map fst m)
     \<and> list_all (\<lambda>e. name (snd e) = fst e \<and> libraryHandle (snd e) \<noteq> nullptr
                     \<and> instance (snd e) \<noteq> nullptr) m
     \<and> distinct (map (\<lambda>e. path (snd e)) m)"

text \<open>The outside calls made between two states of one loader.\<close>

definition calls_since :: "ModuleLoaderSystem \<Rightarrow> ModuleLoaderSystem \<Rightarrow> ext_call list" where
  "calls_since s s' = drop (length (ext_calls s)) (ext_calls s')"

subsection \<open>Concrete modules and loaders used as test inputs\<close>

text \<open>A well-behaved library reporting the name \<open>Echo\<close>, version \<open>1.0.0\<close>.\<close>

definition echo_env :: LoadEnv where
  "echo_env = \<lparr>dlopen_result = 100, dlopen_error = [], dlsym_create = 200, dlsym_destroy = 201,
     dlsym_error = None, createFunc_outcome = Returns 300, initialize_outcome = Returns (),
     getName_result = ''Echo'', getVersion_result = ''1.0.0''\<rparr>"

text \<open>A well-behaved library reporting the name \<open>Alpha\<close>.\<close>

definition alpha_env :: LoadEnv where
  "alpha_env = \<lparr>dlopen_result = 110, dlopen_error = [], dlsym_create = 210, dlsym_destroy = 211,
     dlsym_error = None, createFunc_outcome = Returns 310, initialize_outcome = Returns (),
     getName_result = ''Alpha'', getVersion_result = ''2.0''\<rparr>"

text \<open>An unload in which nothing throws and \<^verbatim>\<open>dlclose\<close> returns 0.\<close>

definition clean_unload_env :: UnloadEnv where
  "clean_unload_env = \<lparr>shutdown_outcome = Returns (), unload_dlsym_destroy = 201,
     destroyFunc_outcome = Returns (), dlclose_result = 0, dlclose_error = []\<rparr>"

text \<open>An unload in which \<^verbatim>\<open>dlclose\<close> fails.\<close>

definition busy_unload_env :: UnloadEnv where
  "busy_unload_env = \<lparr>shutdown_outcome = Returns (), unload_dlsym_destroy = 201,
     destroyFunc_outcome = Returns (), dlclose_result = - 1, dlclose_error = ''library busy''\<rparr>"

text \<open>The descriptor and the loader after \<open>Echo\<close> was loaded from \<open>/x/echo.so\<close>
  into a fresh loader without subscribers.\<close>

definition echo_info :: ModuleInfo where
  "echo_info = \<lparr>name = ''Echo'', version = ''1.0.0'', path = ''/x/echo.so'',
     libraryHandle = 100, instance = 300\<rparr>"

definition echo_loaded :: ModuleLoaderSystem where
  "echo_loaded = snd (loadModule echo_env ''/x/echo.so'' (ModuleLoaderSystem_ctor 1))"

text \<open>Three subscribers: the first returns, the second throws a \<^verbatim>\<open>std::exception\<close>,
  the third throws something else.\<close>

definition quiet_callback :: ModuleEventCallback where
  "quiet_callback type info msg = None"

definition failing_callback :: ModuleEventCallback where
  "failing_callback type info msg = Some (StdException ''boom'')"

definition wild_callback :: ModuleEventCallback where
  "wild_callback type info msg = Some OtherException"

definition three_subscribers :: ModuleLoaderSystem where
  "three_subscribers =
     subscribeToModuleEvents quiet_callback
       (subscribeToModuleEvents wild_callback
         (subscribeToModuleEvents failing_callback (ModuleLoaderSystem_ctor 1)))"

text \<open>The descriptor \<open>alpha_env\<close> yields when loaded from \<open>/x/alpha.so\<close>.\<close>

definition alpha_info :: ModuleInfo where
  "alpha_info = \<lparr>name = ''Alpha'', version = ''2.0'', path = ''/x/alpha.so'',
     libraryHandle = 110, instance = 310\<rparr>"

text \<open>A session: two loads, a load whose module reports a name already taken, a reload,
  and an unload whose \<^verbatim>\<open>dlclose\<close> fails.\<close>

definition example_ops :: "operation list" where
  "example_ops =
     [Load ''/x/echo.so'' echo_env, Load ''/x/alpha.so'' alpha_env,
      Load ''/x/echo_copy.so'' echo_env, Reload ''Echo'' clean_unload_env echo_env,
      Unload ''Alpha'' busy_unload_env]"



text \<open>A teardown in which every \<^verbatim>\<open>dlclose\<close> fails.\<close>

definition always_busy :: "string \<Rightarrow> UnloadEnv" where
  "always_busy moduleName = busy_unload_env"

text \<open>A callback that subscribes \<open>quiet_callback\<close> and returns; a notifier with a
  throwing callback before it and one after it, once with the mutex free and once with
  the mutex held.\<close>

definition subscribing_callback :: ReentrantCallback where
  "subscribing_callback = Reentrant (\<lambda>type info msg. ([plain_callback quiet_callback], None))"

definition open_notifier :: Notifier where
  "open_notifier =
     \<lparr>notifier_callbacks = [plain_callback failing_callback, subscribing_callback,
                            plain_callback wild_callback],
      mutex_locked = False, notifier_calls = [], notifier_cerr = []\<rparr>"

definition held_notifier :: Notifier where
  "held_notifier = open_notifier\<lparr>mutex_locked := True\<rparr>"

section \<open>Properties\<close>

subsection \<open>What each effect leaves unchanged\<close>

lemma os_call_fields [simp]:
  "CppLoadedModules (os_call c s) = CppLoadedModules s"
  "CppEventCallbacks (os_call c s) = CppEventCallbacks s"
  "CppCoreAccess (os_call c s) = CppCoreAccess s"
  "ext_calls (os_call c s) = ext_calls s @ [c]"
  "broadcasts (os_call c s) = broadcasts s"
  "callback_calls (os_call c s) = callback_calls s"
  "cerr (os_call c s) = cerr s"
  by (simp_all add: os_call_def)

lemma write_cerr_fields [simp]:
  "CppLoadedModules (write_cerr l s) = CppLoadedModules s"
  "CppEventCallbacks (write_cerr l s) = CppEventCallbacks s"
  "CppCoreAccess (write_cerr l s) = CppCoreAccess s"
  "ext_calls (write_cerr l s) = ext_calls s"
  "broadcasts (write_cerr l s) = broadcasts s"
  "callback_calls (write_cerr l s) = callback_calls s"
  "cerr (write_cerr l s) = cerr s @ [l]"
  by (simp_all add: write_cerr_def)

lemma try_callback_returns: "fst (try_callback i cb ev s) = None"
  by (simp add: try_callback_def Let_def split: option.splits exn.splits)

lemma try_callback_fields [simp]:
  "CppLoadedModules (snd (try_callback i cb ev s)) = CppLoadedModules s"
  "CppEventCallbacks (snd (try_callback i cb ev s)) = CppEventCallbacks s"
  "CppCoreAccess (snd (try_callback i cb ev s)) = CppCoreAccess s"
  "ext_calls (snd (try_callback i cb ev s)) = ext_calls s"
  "broadcasts (snd (try_callback i cb ev s)) = broadcasts s"
  "callback_calls (snd (try_callback i cb ev s)) = callback_calls s @ [(i, ev)]"
  "cerr (snd (try_callback i cb ev s)) = cerr s @ cerr_line cb ev"
  by (simp_all add: try_callback_def cerr_line_def Let_def split: option.splits exn.splits)

lemma for_each_callback_step:
  "for_each_callback i (cb # rest) ev s = for_each_callback (Suc i) rest ev (snd (try_callback i cb ev s))"
  using try_callback_returns [of i cb ev s]
  by (cases "try_callback i cb ev s") (simp split: option.splits)

lemma for_each_callback_returns: "fst (for_each_callback i cbs ev s) = None"
  by (induction cbs arbitrary: i s) (simp_all add: for_each_callback_step del: for_each_callback.simps(2))

lemma upt_shift: "[i..<i + Suc n] = i # [Suc i..<Suc i + n]"
  by (simp add: upt_conv_Cons)

lemma for_each_callback_fields:
  "CppLoadedModules (snd (for_each_callback i cbs ev s)) = CppLoadedModules s"
  "CppEventCallbacks (snd (for_each_callback i cbs ev s)) = CppEventCallbacks s"
  "CppCoreAccess (snd (for_each_callback i cbs ev s)) = CppCoreAccess s"
  "ext_calls (snd (for_each_callback i cbs ev s)) = ext_calls s"
  "broadcasts (snd (for_each_callback i cbs ev s)) = broadcasts s"
  "cerr (snd (for_each_callback i cbs ev s)) = cerr s @ concat (map (\<lambda>cb. cerr_line cb ev) cbs)"
  by (induction cbs arbitrary: i s; simp add: for_each_callback_step del: for_each_callback.simps(2))+

lemma for_each_callback_calls:
  "callback_calls (snd (for_each_callback i cbs ev s)) =
     callback_calls s @ map (\<lambda>j. (j, ev)) [i..<i + length cbs]"
proof (induction cbs arbitrary: i s)
  case Nil
  show ?case by simp
next
  case (Cons cb rest)
  show ?case
    using upt_shift [of i "length rest"]
    by (simp add: for_each_callback_step Cons.IH del: for_each_callback.simps(2) upt_Suc)
qed

lemma broadcastEvent_body_returns: "fst (broadcastEvent_body type info msg s) = None"
  by (simp add: broadcastEvent_body_def Let_def for_each_callback_returns)

lemma broadcastEvent_fields [simp]:
  "CppLoadedModules (broadcastEvent type info msg s) = CppLoadedModules s"
  "CppEventCallbacks (broadcastEvent type info msg s) = CppEventCallbacks s"
  "CppCoreAccess (broadcastEvent type info msg s) = CppCoreAccess s"
  "ext_calls (broadcastEvent type info msg s) = ext_calls s"
  "broadcasts (broadcastEvent type info msg s) = broadcasts s @ [(type, info, msg)]"
  by (simp_all add: broadcastEvent_def broadcastEvent_body_def Let_def for_each_callback_fields)

subsection \<open>The registry operations\<close>

lemma map_find_None_iff: "map_find k m = None \<longleftrightarrow> k \<notin> fst ` set m"
  by (induction m) (auto split: if_splits)

lemma map_find_Some_mem: "map_find k m = Some v \<Longrightarrow> (k, v) \<in> set m"
  by (induction m) (auto split: if_splits)

lemma map_count_zero_iff: "map_count k m = 0 \<longleftrightarrow> map_find k m = None"
  by (simp add: map_count_def split: option.splits)

lemma find_path_None_iff:
  "List.find (\<lambda>pair. path (snd pair) = p) m = None \<longleftrightarrow> p \<notin> (\<lambda>e. path (snd e)) ` set m"
  by (induction m) auto

lemma keys_map_assign: "fst ` set (map_assign k v m) = insert k (fst ` set m)"
proof (induction m)
  case Nil
  show ?case by simp
next
  case (Cons e m)
  obtain k' v' where e: "e = (k', v')" by (cases e)
  show ?case unfolding e using Cons.IH by (simp add: insert_commute)
qed

lemma set_map_assign_absent:
  "k \<notin> fst ` set m \<Longrightarrow> set (map_assign k v m) = insert (k, v) (set m)"
proof (induction m)
  case Nil
  show ?case by simp
next
  case (Cons e m)
  obtain k' v' where e: "e = (k', v')" by (cases e)
  from Cons.prems e have "k \<noteq> k'" and "k \<notin> fst ` set m" by auto
  with Cons.IH show ?case unfolding e by (simp add: insert_commute)
qed

lemma sorted_map_assign:
  "sorted_wrt (<) (map fst m) \<Longrightarrow> sorted_wrt (<) (map fst (map_assign k v m))"
proof (induction m)
  case Nil
  show ?case by simp
next
  case (Cons e m)
  obtain k' v' where e: "e = (k', v')" by (cases e)
  from Cons.prems e have tail: "sorted_wrt (<) (map fst m)" and above: "\<forall>x\<in>fst ` set m. k' < x"
    by auto
  show ?case
  proof (cases "k = k'")
    case True
    with Cons.prems e show ?thesis by simp
  next
    case False
    show ?thesis
    proof (cases "k < k'")
      case True
      with above have "\<forall>x\<in>fst ` set m. k < x" by (meson less_trans)
      with True False tail above show ?thesis unfolding e by simp
    next
      case False
      with \<open>k \<noteq> k'\<close> have "k' < k" by simp
      with above have "\<forall>x\<in>fst ` set (map_assign k v m). k' < x"
        by (simp add: keys_map_assign)
      with False \<open>k \<noteq> k'\<close> Cons.IH [OF tail] show ?thesis unfolding e by simp
    qed
  qed
qed

lemma distinct_map_assign:
  "k \<notin> fst ` set m \<Longrightarrow> g (k, v) \<notin> g ` set m \<Longrightarrow> distinct (map g m)
   \<Longrightarrow> distinct (map g (map_assign k v m))"
proof (induction m)
  case Nil
  show ?case by simp
next
  case (Cons e m)
  obtain k' v' where e: "e = (k', v')" by (cases e)
  from Cons.prems e have k: "k \<noteq> k'" "k \<notin> fst ` set m" by auto
  from Cons.prems e have f: "g (k, v) \<noteq> g (k', v')" "g (k, v) \<notin> g ` set m" by auto
  from Cons.prems e have d: "g (k', v') \<notin> g ` set m" "distinct (map g m)" by auto
  have "g ` set (map_assign k v m) = insert (g (k, v)) (g ` set m)"
    by (simp add: set_map_assign_absent [OF k(2)])
  with k f d Cons.IH [OF k(2) f(2) d(2)] show ?case unfolding e by simp
qed

lemma map_find_assign_same: "map_find k (map_assign k v m) = Some v"
  by (induction m) auto

lemma map_erase_assign: "k \<notin> fst ` set m \<Longrightarrow> map_erase k (map_assign k v m) = m"
  by (induction m) auto

lemma set_map_erase_subset: "set (map_erase k m) \<subseteq> set m"
  by (induction m) (auto split: if_splits)

lemma sorted_map_erase:
  "sorted_wrt (<) (map fst m) \<Longrightarrow> sorted_wrt (<) (map fst (map_erase k m))"
proof (induction m)
  case Nil
  show ?case by simp
next
  case (Cons e m)
  obtain k' v' where e: "e = (k', v')" by (cases e)
  from Cons.prems e have tail: "sorted_wrt (<) (map fst m)" and above: "\<forall>x\<in>set m. k' < fst x"
    by auto
  from above have "\<forall>x\<in>set (map_erase k m). k' < fst x"
    using set_map_erase_subset [of k m] by blast
  with tail Cons.IH [OF tail] show ?case unfolding e by simp
qed

lemma distinct_map_erase:
  "distinct (map f m) \<Longrightarrow> distinct (map f (map_erase k m))"
proof (induction m)
  case Nil
  show ?case by simp
next
  case (Cons e m)
  obtain k' v' where e: "e = (k', v')" by (cases e)
  from Cons.prems e have tail: "distinct (map f m)" and fresh: "f (k', v') \<notin> f ` set m"
    by auto
  from fresh have "f (k', v') \<notin> f ` set (map_erase k m)"
    using set_map_erase_subset [of k m] by blast
  with tail Cons.IH [OF tail] show ?case unfolding e by simp
qed

lemma map_find_erase_other: "k' \<noteq> k \<Longrightarrow> map_find k' (map_erase k m) = map_find k' m"
  by (induction m) auto

subsection \<open>\<^verbatim>\<open>loadModule\<close> by cases\<close>

lemma load_error_fields [simp]:
  "status (fst (load_error errorInfo errorMsg s)) = Error"
  "module (fst (load_error errorInfo errorMsg s)) = Some errorInfo"
  "message (fst (load_error errorInfo errorMsg s)) = errorMsg"
  "CppLoadedModules (snd (load_error errorInfo errorMsg s)) = CppLoadedModules s"
  "CppEventCallbacks (snd (load_error errorInfo errorMsg s)) = CppEventCallbacks s"
  "CppCoreAccess (snd (load_error errorInfo errorMsg s)) = CppCoreAccess s"
  "ext_calls (snd (load_error errorInfo errorMsg s)) = ext_calls s"
  "broadcasts (snd (load_error errorInfo errorMsg s)) = broadcasts s @ [(ErrorLoading, errorInfo, errorMsg)]"
  by (simp_all add: load_error_def mkResult_def)

lemma cleanup_destroy_fields [simp]:
  "CppLoadedModules (cleanup_destroy f i s) = CppLoadedModules s"
  "CppEventCallbacks (cleanup_destroy f i s) = CppEventCallbacks s"
  "CppCoreAccess (cleanup_destroy f i s) = CppCoreAccess s"
  "broadcasts (cleanup_destroy f i s) = broadcasts s"
  "ext_calls (cleanup_destroy f i s) = ext_calls s @ (if f \<noteq> nullptr then [DestroyFunc i] else [])"
  by (simp_all add: cleanup_destroy_def)

lemma loadModule_cases:
  "(\<exists>inst. List.find (\<lambda>pair. path (snd pair) = p) (CppLoadedModules s) = None
      \<and> dlopen_result env \<noteq> nullptr \<and> dlsym_create env \<noteq> nullptr
      \<and> createFunc_outcome env = Returns inst \<and> inst \<noteq> nullptr
      \<and> initialize_outcome env = Returns ()
      \<and> map_find (getName_result env) (CppLoadedModules s) = None
      \<and> fst (loadModule env p s) =
          mkResult Success ''Module loaded successfully.''
            (Some \<lparr>name = getName_result env, version = getVersion_result env, path = p,
                   libraryHandle = dlopen_result env, instance = inst\<rparr>)
      \<and> CppLoadedModules (snd (loadModule env p s)) =
          map_assign (getName_result env)
            \<lparr>name = getName_result env, version = getVersion_result env, path = p,
             libraryHandle = dlopen_result env, instance = inst\<rparr> (CppLoadedModules s)
      \<and> broadcasts (snd (loadModule env p s)) = broadcasts s @
          [(Loaded, \<lparr>name = getName_result env, version = getVersion_result env, path = p,
                     libraryHandle = dlopen_result env, instance = inst\<rparr>,
            ''Module loaded successfully.'')])
   \<or> (status (fst (loadModule env p s)) = Error
       \<and> CppLoadedModules (snd (loadModule env p s)) = CppLoadedModules s
       \<and> (broadcasts (snd (loadModule env p s)) = broadcasts s
          \<or> (\<exists>info msg. broadcasts (snd (loadModule env p s)) = broadcasts s @ [(ErrorLoading, info, msg)])))"
  by (simp add: loadModule_def loadModule_create_def loadModule_initialize_def Let_def
        ModuleInfo_default_def mkResult_def map_count_zero_iff
      split: option.splits outcome.splits)

subsection \<open>\<^verbatim>\<open>internalUnloadModule\<close> by cases\<close>

lemma unload_shutdown_fields [simp]:
  "CppLoadedModules (unload_shutdown env n d s) = CppLoadedModules s"
  "CppEventCallbacks (unload_shutdown env n d s) = CppEventCallbacks s"
  "CppCoreAccess (unload_shutdown env n d s) = CppCoreAccess s"
  by (simp_all add: unload_shutdown_def Let_def split: outcome.splits exn.splits)

lemma unload_destroy_fields [simp]:
  "CppLoadedModules (unload_destroy env n d s) = CppLoadedModules s"
  "CppEventCallbacks (unload_destroy env n d s) = CppEventCallbacks s"
  "CppCoreAccess (unload_destroy env n d s) = CppCoreAccess s"
  by (simp_all add: unload_destroy_def Let_def split: outcome.splits exn.splits)

lemma unload_shutdown_broadcasts:
  "\<exists>evs. broadcasts (unload_shutdown env n d s) = broadcasts s @ evs
     \<and> fst ` set evs \<subseteq> {ErrorUnloading}"
  by (simp add: unload_shutdown_def Let_def split: outcome.splits exn.splits)

lemma unload_destroy_broadcasts:
  "\<exists>evs. broadcasts (unload_destroy env n d s) = broadcasts s @ evs
     \<and> fst ` set evs \<subseteq> {ErrorUnloading}"
  by (simp add: unload_destroy_def Let_def split: outcome.splits exn.splits)

lemma unload_shutdown_ext_calls:
  "\<exists>cs. ext_calls (unload_shutdown env n d s) = ext_calls s @ cs"
  by (simp add: unload_shutdown_def Let_def split: outcome.splits exn.splits)

lemma unload_destroy_ext_calls:
  "\<exists>cs. ext_calls (unload_destroy env n d s) = ext_calls s @ cs"
  by (simp add: unload_destroy_def Let_def split: outcome.splits exn.splits)

lemma unload_teardown_broadcasts:
  "\<exists>evs. broadcasts (unload_destroy env n d (unload_shutdown env n d s)) = broadcasts s @ evs
     \<and> fst ` set evs \<subseteq> {ErrorUnloading}"
proof -
  obtain evs1 where 1: "broadcasts (unload_shutdown env n d s) = broadcasts s @ evs1"
      "fst ` set evs1 \<subseteq> {ErrorUnloading}"
    using unload_shutdown_broadcasts by blast
  obtain evs2 where 2: "broadcasts (unload_destroy env n d (unload_shutdown env n d s))
        = broadcasts (unload_shutdown env n d s) @ evs2"
      "fst ` set evs2 \<subseteq> {ErrorUnloading}"
    using unload_destroy_broadcasts by blast
  from 1 2 have "broadcasts (unload_destroy env n d (unload_shutdown env n d s))
      = broadcasts s @ (evs1 @ evs2) \<and> fst ` set (evs1 @ evs2) \<subseteq> {ErrorUnloading}"
    by auto
  then show ?thesis by blast
qed

lemma unload_teardown_ext_calls:
  "\<exists>cs. ext_calls (unload_destroy env n d (unload_shutdown env n d s)) = ext_calls s @ cs"
  using unload_shutdown_ext_calls [of env n d s]
    unload_destroy_ext_calls [of env n d "unload_shutdown env n d s"]
  by auto

lemma unload_finish_fields [simp]:
  "fst (unload_finish n r d s) = mkResult Success ''Module unloaded successfully.'' (Some (d\<lparr>libraryHandle := nullptr\<rparr>))"
  "CppLoadedModules (snd (unload_finish n r d s)) = map_erase n (CppLoadedModules s)"
  "CppEventCallbacks (snd (unload_finish n r d s)) = CppEventCallbacks s"
  "CppCoreAccess (snd (unload_finish n r d s)) = CppCoreAccess s"
  "ext_calls (snd (unload_finish n r d s)) = ext_calls s"
  "broadcasts (snd (unload_finish n r d s)) = broadcasts s @
     (if r then [] else [(Unloaded, d\<lparr>libraryHandle := nullptr\<rparr>, ''Module unloaded successfully.'')])"
  by (simp_all add: unload_finish_def Let_def)

lemma internalUnloadModule_absent:
  assumes "map_find n (CppLoadedModules s) = None"
  shows "fst (internalUnloadModule env n r s) = mkResult NotFound (''Module not found: '' @ n) None"
    and "CppLoadedModules (snd (internalUnloadModule env n r s)) = CppLoadedModules s"
    and "broadcasts (snd (internalUnloadModule env n r s)) = broadcasts s @
      (if r then []
       else [(ErrorUnloading, ModuleInfo_default\<lparr>name := n\<rparr>, ''Module not found for unloading.'')])"
    and "ext_calls (snd (internalUnloadModule env n r s)) = ext_calls s"
  using assms by (simp_all add: internalUnloadModule_def Let_def)

lemma internalUnloadModule_close_fails:
  assumes "map_find n (CppLoadedModules s) = Some d"
    and "libraryHandle d \<noteq> nullptr" and "dlclose_result env \<noteq> 0"
  shows "fst (internalUnloadModule env n r s) =
      mkResult Error (''Failed to free library for module '' @ n @ '' (Error: '' @ dlclose_error env @ '')'')
        (Some (d\<lparr>instance := nullptr\<rparr>))"
    and "CppLoadedModules (snd (internalUnloadModule env n r s)) = CppLoadedModules s"
    and "\<exists>evs. broadcasts (snd (internalUnloadModule env n r s)) = broadcasts s @ evs @
           [(ErrorUnloading, d\<lparr>instance := nullptr\<rparr>,
             ''Failed to free library for module '' @ n @ '' (Error: '' @ dlclose_error env @ '')'')]
         \<and> fst ` set evs \<subseteq> {ErrorUnloading}"
    and "\<exists>cs. ext_calls (snd (internalUnloadModule env n r s)) =
           ext_calls s @ cs @ [Dlclose (libraryHandle d), Dlerror]"
  using assms unload_teardown_broadcasts [of env n d s] unload_teardown_ext_calls [of env n d s]
  by (auto simp add: internalUnloadModule_def Let_def)

lemma internalUnloadModule_closes:
  assumes "map_find n (CppLoadedModules s) = Some d"
    and "libraryHandle d = nullptr \<or> dlclose_result env = 0"
  shows "fst (internalUnloadModule env n r s) =
      mkResult Success ''Module unloaded successfully.''
        (Some (d\<lparr>instance := nullptr, libraryHandle := nullptr\<rparr>))"
    and "CppLoadedModules (snd (internalUnloadModule env n r s)) = map_erase n (CppLoadedModules s)"
    and "\<exists>evs. broadcasts (snd (internalUnloadModule env n r s)) = broadcasts s @ evs @
           (if r then []
            else [(Unloaded, d\<lparr>instance := nullptr, libraryHandle := nullptr\<rparr>,
                   ''Module unloaded successfully.'')])
         \<and> fst ` set evs \<subseteq> {ErrorUnloading}"
    and "\<exists>cs. ext_calls (snd (internalUnloadModule env n r s)) =
           ext_calls s @ cs @ (if libraryHandle d \<noteq> nullptr then [Dlclose (libraryHandle d)] else [])"
  using assms unload_teardown_broadcasts [of env n d s] unload_teardown_ext_calls [of env n d s]
  by (auto simp add: internalUnloadModule_def Let_def)

lemma internalUnloadModule_callbacks [simp]:
  "CppEventCallbacks (snd (internalUnloadModule env n r s)) = CppEventCallbacks s"
  "CppCoreAccess (snd (internalUnloadModule env n r s)) = CppCoreAccess s"
  by (simp_all add: internalUnloadModule_def Let_def split: option.splits)

subsection \<open>The concrete loader\<close>

lemma echo_loaded_eq:
  "echo_loaded = \<lparr>CppLoadedModules = [(''Echo'', echo_info)], CppEventCallbacks = [],
     CppCoreAccess = 1,
     ext_calls = [Dlopen ''/x/echo.so'', Dlsym 100 CREATE_MODULE_FUNC_NAME,
       Dlsym 100 DESTROY_MODULE_FUNC_NAME, CreateFunc, Initialize 300 1, GetName 300, GetVersion 300],
     broadcasts = [(Loaded, echo_info, ''Module loaded successfully.'')],
     callback_calls = [], cerr = []\<rparr>"
  by (simp add: echo_loaded_def loadModule_def loadModule_create_def loadModule_initialize_def
      Let_def echo_env_def ModuleLoaderSystem_ctor_def map_count_def echo_info_def
      ModuleInfo_default_def mkResult_def os_call_def broadcastEvent_def broadcastEvent_body_def)

lemma echo_loaded_registry [simp]: "CppLoadedModules echo_loaded = [(''Echo'', echo_info)]"
  by (simp add: echo_loaded_eq)

lemmas eval_defs =
  loadModule_def loadModule_create_def loadModule_initialize_def load_error_def cleanup_destroy_def
  internalUnloadModule_def unload_shutdown_def unload_destroy_def unload_finish_def unloadModule_def
  reloadModule_def Let_def map_count_def ModuleInfo_default_def mkResult_def
  ModuleLoaderSystem_ctor_def echo_env_def alpha_env_def clean_unload_env_def busy_unload_env_def
  echo_info_def alpha_info_def

lemma echo_load_result:
  "loadModule echo_env ''/x/echo.so'' (ModuleLoaderSystem_ctor 1) =
     (mkResult Success ''Module loaded successfully.'' (Some echo_info), echo_loaded)"
  by (simp add: echo_loaded_def prod_eq_iff eval_defs)



subsection \<open>The event notifier\<close>

lemma run_subscriptions_free:
  "\<not> mutex_locked n \<Longrightarrow> run_subscriptions cs n =
     (Completes (), n\<lparr>notifier_callbacks := notifier_callbacks n @ cs\<rparr>)"
proof (induction cs arbitrary: n)
  case Nil
  show ?case by simp
next
  case (Cons c cs)
  let ?n' = "n\<lparr>notifier_callbacks := notifier_callbacks n @ [c]\<rparr>"
  from Cons.prems have step: "subscribeToModuleEvents_locking c n = (Completes (), ?n')"
    by (simp add: subscribeToModuleEvents_locking_def Let_def)
  from Cons.prems have "\<not> mutex_locked ?n'" by simp
  from Cons.IH [OF this] step show ?case by simp
qed

lemma run_subscriptions_locked:
  "mutex_locked n \<Longrightarrow> run_subscriptions cs n = (if cs = [] then Completes () else NeverReturns, n)"
  by (cases cs) (simp_all add: subscribeToModuleEvents_locking_def)

lemma call_callback_returns:
  assumes "\<not> mutex_locked n \<or> subscriptions cb ev = []"
  shows "call_callback cb ev n =
     (Completes (raised cb ev), n\<lparr>notifier_callbacks := notifier_callbacks n @ subscriptions cb ev\<rparr>)"
proof (cases "mutex_locked n")
  case True
  with assms have "subscriptions cb ev = []" by simp
  then show ?thesis by (simp add: call_callback_def)
next
  case False
  then show ?thesis by (simp add: call_callback_def run_subscriptions_free)
qed

lemma call_callback_blocks:
  assumes "mutex_locked n" and "subscriptions cb ev \<noteq> []"
  shows "call_callback cb ev n = (NeverReturns, n)"
  using assms by (simp add: call_callback_def run_subscriptions_locked)

lemma try_callback_locking_returns:
  assumes "\<not> mutex_locked n \<or> subscriptions cb ev = []"
  shows "try_callback_locking i cb ev n =
     (Completes None,
      n\<lparr>notifier_callbacks := notifier_callbacks n @ subscriptions cb ev,
        notifier_calls := notifier_calls n @ [(i, ev)],
        notifier_cerr := notifier_cerr n @ cerr_report (raised cb ev)\<rparr>)"
proof -
  let ?n1 = "n\<lparr>notifier_calls := notifier_calls n @ [(i, ev)]\<rparr>"
  from assms have "\<not> mutex_locked ?n1 \<or> subscriptions cb ev = []" by simp
  from call_callback_returns [OF this] show ?thesis
    by (simp add: try_callback_locking_def Let_def cerr_report_def split: option.splits exn.splits)
qed

lemma try_callback_locking_blocks:
  assumes "mutex_locked n" and "subscriptions cb ev \<noteq> []"
  shows "try_callback_locking i cb ev n =
     (NeverReturns, n\<lparr>notifier_calls := notifier_calls n @ [(i, ev)]\<rparr>)"
proof -
  let ?n1 = "n\<lparr>notifier_calls := notifier_calls n @ [(i, ev)]\<rparr>"
  from assms have "mutex_locked ?n1" by simp
  from call_callback_blocks [OF this assms(2)] show ?thesis
    by (simp add: try_callback_locking_def Let_def)
qed

lemma for_each_callback_locking_returns:
  assumes "\<not> mutex_locked n \<or> (\<forall>cb\<in>set cbs. subscriptions cb ev = [])"
  shows "for_each_callback_locking i cbs ev n =
     (Completes None,
      n\<lparr>notifier_callbacks := notifier_callbacks n @ concat (map (\<lambda>cb. subscriptions cb ev) cbs),
        notifier_calls := notifier_calls n @ map (\<lambda>j. (j, ev)) [i..<i + length cbs],
        notifier_cerr := notifier_cerr n @ concat (map (\<lambda>cb. cerr_report (raised cb ev)) cbs)\<rparr>)"
  using assms
proof (induction cbs arbitrary: i n)
  case Nil
  show ?case by simp
next
  case (Cons cb rest)
  let ?n' = "n\<lparr>notifier_callbacks := notifier_callbacks n @ subscriptions cb ev,
        notifier_calls := notifier_calls n @ [(i, ev)],
        notifier_cerr := notifier_cerr n @ cerr_report (raised cb ev)\<rparr>"
  from Cons.prems have head: "\<not> mutex_locked n \<or> subscriptions cb ev = []" by auto
  from Cons.prems have tail: "\<not> mutex_locked ?n' \<or> (\<forall>cb\<in>set rest. subscriptions cb ev = [])"
    by auto
  have step: "for_each_callback_locking i (cb # rest) ev n =
      for_each_callback_locking (Suc i) rest ev ?n'"
    by (simp add: try_callback_locking_returns [OF head])
  show ?case
    unfolding step Cons.IH [OF tail]
    using upt_shift [of i "length rest"] by (simp del: upt_Suc)
qed

lemma for_each_callback_locking_prefix:
  "\<exists>k added. k \<le> length cbs
     \<and> (fst (for_each_callback_locking i cbs ev n) = Completes None \<and> k = length cbs
        \<or> fst (for_each_callback_locking i cbs ev n) = NeverReturns)
     \<and> notifier_calls (snd (for_each_callback_locking i cbs ev n)) =
         notifier_calls n @ map (\<lambda>j. (j, ev)) [i..<i + k]
     \<and> notifier_callbacks (snd (for_each_callback_locking i cbs ev n)) =
         notifier_callbacks n @ added"
proof (induction cbs arbitrary: i n)
  case Nil
  show ?case by simp
next
  case (Cons cb rest)
  show ?case
  proof (cases "mutex_locked n \<and> subscriptions cb ev \<noteq> []")
    case True
    then have "try_callback_locking i cb ev n =
        (NeverReturns, n\<lparr>notifier_calls := notifier_calls n @ [(i, ev)]\<rparr>)"
      by (simp add: try_callback_locking_blocks)
    then have r: "for_each_callback_locking i (cb # rest) ev n =
        (NeverReturns, n\<lparr>notifier_calls := notifier_calls n @ [(i, ev)]\<rparr>)"
      by simp
    have "Suc 0 \<le> length (cb # rest)
        \<and> (fst (for_each_callback_locking i (cb # rest) ev n) = Completes None
              \<and> Suc 0 = length (cb # rest)
            \<or> fst (for_each_callback_locking i (cb # rest) ev n) = NeverReturns)
        \<and> notifier_calls (snd (for_each_callback_locking i (cb # rest) ev n)) =
            notifier_calls n @ map (\<lambda>j. (j, ev)) [i..<i + Suc 0]
        \<and> notifier_callbacks (snd (for_each_callback_locking i (cb # rest) ev n)) =
            notifier_callbacks n @ []"
      unfolding r by simp
    then show ?thesis by blast
  next
    case False
    let ?n' = "n\<lparr>notifier_callbacks := notifier_callbacks n @ subscriptions cb ev,
          notifier_calls := notifier_calls n @ [(i, ev)],
          notifier_cerr := notifier_cerr n @ cerr_report (raised cb ev)\<rparr>"
    from False have head: "\<not> mutex_locked n \<or> subscriptions cb ev = []" by auto
    have step: "for_each_callback_locking i (cb # rest) ev n =
        for_each_callback_locking (Suc i) rest ev ?n'"
      by (simp add: try_callback_locking_returns [OF head])
    from Cons.IH [of "Suc i" ?n'] obtain k added where k: "k \<le> length rest"
      and res: "fst (for_each_callback_locking (Suc i) rest ev ?n') = Completes None \<and> k = length rest
        \<or> fst (for_each_callback_locking (Suc i) rest ev ?n') = NeverReturns"
      and calls: "notifier_calls (snd (for_each_callback_locking (Suc i) rest ev ?n')) =
        notifier_calls ?n' @ map (\<lambda>j. (j, ev)) [Suc i..<Suc i + k]"
      and cbs: "notifier_callbacks (snd (for_each_callback_locking (Suc i) rest ev ?n')) =
        notifier_callbacks ?n' @ added"
      by blast
    have "Suc k \<le> length (cb # rest)
        \<and> (fst (for_each_callback_locking i (cb # rest) ev n) = Completes None
              \<and> Suc k = length (cb # rest)
            \<or> fst (for_each_callback_locking i (cb # rest) ev n) = NeverReturns)
        \<and> notifier_calls (snd (for_each_callback_locking i (cb # rest) ev n)) =
            notifier_calls n @ map (\<lambda>j. (j, ev)) [i..<i + Suc k]
        \<and> notifier_callbacks (snd (for_each_callback_locking i (cb # rest) ev n)) =
            notifier_callbacks n @ (subscriptions cb ev @ added)"
      unfolding step using k res calls cbs upt_shift [of i k] by (simp del: upt_Suc)
    then show ?thesis by blast
  qed
qed

lemma try_callback_plain:
  "try_callback_locking i (plain_callback cb) ev (notifier_of locked s) =
     (Completes None, notifier_of locked (snd (try_callback i cb ev s)))"
proof -
  have subs: "subscriptions (plain_callback cb) ev = []" by (simp add: plain_callback_def)
  have r: "raised (plain_callback cb) ev = cb (fst ev) (fst (snd ev)) (snd (snd ev))"
    by (simp add: plain_callback_def)
  have head: "\<not> mutex_locked (notifier_of locked s) \<or> subscriptions (plain_callback cb) ev = []"
    using subs by simp
  show ?thesis
    unfolding try_callback_locking_returns [OF head] subs r
    by (simp add: notifier_of_def try_callback_def Let_def cerr_report_def write_cerr_def
        split: option.splits exn.splits)
qed

lemma for_each_callback_plain:
  "for_each_callback_locking i (map plain_callback cbs) ev (notifier_of locked s) =
     (Completes None, notifier_of locked (snd (for_each_callback i cbs ev s)))"
proof (induction cbs arbitrary: i s)
  case Nil
  show ?case by simp
next
  case (Cons cb rest)
  show ?case
    by (simp add: try_callback_plain Cons.IH for_each_callback_step del: for_each_callback.simps(2))
qed

lemma broadcastEvent_plain:
  "broadcastEvent_locking type info msg (notifier_of locked s) =
     (Completes None, notifier_of locked (snd (broadcastEvent_body type info msg s)))"
proof -
  let ?s1 = "s\<lparr>broadcasts := broadcasts s @ [(type, info, msg)]\<rparr>"
  have same: "notifier_of locked ?s1 = notifier_of locked s" by (simp add: notifier_of_def)
  have "broadcastEvent_locking type info msg (notifier_of locked s) =
      for_each_callback_locking 0 (map plain_callback (CppEventCallbacks s)) (type, info, msg)
        (notifier_of locked ?s1)"
    unfolding same by (simp add: broadcastEvent_locking_def Let_def notifier_of_def)
  also have "\<dots> = (Completes None,
      notifier_of locked (snd (for_each_callback 0 (CppEventCallbacks s) (type, info, msg) ?s1)))"
    by (rule for_each_callback_plain)
  finally show ?thesis by (simp add: broadcastEvent_body_def Let_def)
qed

lemma for_each_callback_locking_blocks:
  assumes "mutex_locked n" and "\<exists>cb\<in>set cbs. subscriptions cb ev \<noteq> []"
  shows "fst (for_each_callback_locking i cbs ev n) = NeverReturns"
  using assms
proof (induction cbs arbitrary: i n)
  case Nil
  then show ?case by simp
next
  case (Cons cb rest)
  show ?case
  proof (cases "subscriptions cb ev = []")
    case False
    with Cons.prems(1) show ?thesis by (simp add: try_callback_locking_blocks)
  next
    case True
    let ?n' = "n\<lparr>notifier_callbacks := notifier_callbacks n @ subscriptions cb ev,
          notifier_calls := notifier_calls n @ [(i, ev)],
          notifier_cerr := notifier_cerr n @ cerr_report (raised cb ev)\<rparr>"
    from True have head: "\<not> mutex_locked n \<or> subscriptions cb ev = []" by simp
    from Cons.prems(1) have locked: "mutex_locked ?n'" by simp
    from Cons.prems(2) True have later: "\<exists>cb\<in>set rest. subscriptions cb ev \<noteq> []" by auto
    from Cons.IH [OF locked later, of "Suc i"] show ?thesis
      by (simp add: try_callback_locking_returns [OF head])
  qed
qed

text \<open>
  Claim C9. Whatever the subscribed callbacks do, no exception leaves
  \<^verbatim>\<open>broadcastEvent\<close>; every callback of the list is called exactly once, in order and
  with the event, also after an earlier one threw; each exception leaves one line on
  \<^verbatim>\<open>std::cerr\<close>; the subscriber list itself is not changed by the loop. The loader's
  notifier is the notifier with the mutex, run on callbacks that subscribe nothing.

  The list walked is the copy taken on entry. With callbacks that subscribe during their
  own invocation: the callbacks called are always the first \<open>k\<close> of the list as it stood
  on entry, and callbacks added meanwhile are appended to the member and not called. If
  the mutex is free, or no callback subscribes, the broadcast completes with all of the
  entry list called, whatever was thrown. If the mutex is held, as it is in every call
  the loader makes, a callback that subscribes never returns and the broadcast stops
  there.
\<close>

theorem C9_broadcast_isolates_faults_and_walks_copy:
  "fst (broadcastEvent_body type info msg s) = None
   \<and> callback_calls (snd (broadcastEvent_body type info msg s)) =
       callback_calls s @ map (\<lambda>j. (j, (type, info, msg))) [0..<length (CppEventCallbacks s)]
   \<and> cerr (snd (broadcastEvent_body type info msg s)) =
       cerr s @ concat (map (\<lambda>cb. cerr_line cb (type, info, msg)) (CppEventCallbacks s))
   \<and> CppEventCallbacks (snd (broadcastEvent_body type info msg s)) = CppEventCallbacks s
   \<and> broadcastEvent_locking type info msg (notifier_of locked s) =
       (Completes None, notifier_of locked (snd (broadcastEvent_body type info msg s)))
   \<and> (\<exists>k added. k \<le> length (notifier_callbacks n)
        \<and> (fst (broadcastEvent_locking type info msg n) = Completes None
              \<and> k = length (notifier_callbacks n)
            \<or> fst (broadcastEvent_locking type info msg n) = NeverReturns)
        \<and> notifier_calls (snd (broadcastEvent_locking type info msg n)) =
            notifier_calls n @ map (\<lambda>j. (j, (type, info, msg))) [0..<k]
        \<and> notifier_callbacks (snd (broadcastEvent_locking type info msg n)) =
            notifier_callbacks n @ added)
   \<and> (\<not> mutex_locked n
         \<or> (\<forall>cb\<in>set (notifier_callbacks n). subscriptions cb (type, info, msg) = []) \<longrightarrow>
       broadcastEvent_locking type info msg n =
         (Completes None,
          n\<lparr>notifier_callbacks := notifier_callbacks n
               @ concat (map (\<lambda>cb. subscriptions cb (type, info, msg)) (notifier_callbacks n)),
            notifier_calls := notifier_calls n
               @ map (\<lambda>j. (j, (type, info, msg))) [0..<length (notifier_callbacks n)],
            notifier_cerr := notifier_cerr n
               @ concat (map (\<lambda>cb. cerr_report (raised cb (type, info, msg)))
                          (notifier_callbacks n))\<rparr>))
   \<and> (mutex_locked n
         \<and> (\<exists>cb\<in>set (notifier_callbacks n). subscriptions cb (type, info, msg) \<noteq> []) \<longrightarrow>
       fst (broadcastEvent_locking type info msg n) = NeverReturns)"
proof -
  have plain: "fst (broadcastEvent_body type info msg s) = None
      \<and> callback_calls (snd (broadcastEvent_body type info msg s)) =
          callback_calls s @ map (\<lambda>j. (j, (type, info, msg))) [0..<length (CppEventCallbacks s)]
      \<and> cerr (snd (broadcastEvent_body type info msg s)) =
          cerr s @ concat (map (\<lambda>cb. cerr_line cb (type, info, msg)) (CppEventCallbacks s))
      \<and> CppEventCallbacks (snd (broadcastEvent_body type info msg s)) = CppEventCallbacks s"
    by (simp add: broadcastEvent_body_def Let_def for_each_callback_returns
        for_each_callback_fields for_each_callback_calls)
  have link: "broadcastEvent_locking type info msg (notifier_of locked s) =
      (Completes None, notifier_of locked (snd (broadcastEvent_body type info msg s)))"
    by (rule broadcastEvent_plain)
  have prefix: "\<exists>k added. k \<le> length (notifier_callbacks n)
      \<and> (fst (broadcastEvent_locking type info msg n) = Completes None
            \<and> k = length (notifier_callbacks n)
          \<or> fst (broadcastEvent_locking type info msg n) = NeverReturns)
      \<and> notifier_calls (snd (broadcastEvent_locking type info msg n)) =
          notifier_calls n @ map (\<lambda>j. (j, (type, info, msg))) [0..<k]
      \<and> notifier_callbacks (snd (broadcastEvent_locking type info msg n)) =
          notifier_callbacks n @ added"
    using for_each_callback_locking_prefix [of "notifier_callbacks n" 0 "(type, info, msg)" n]
    by (simp add: broadcastEvent_locking_def Let_def)
  have returns: "\<not> mutex_locked n
        \<or> (\<forall>cb\<in>set (notifier_callbacks n). subscriptions cb (type, info, msg) = []) \<longrightarrow>
      broadcastEvent_locking type info msg n =
        (Completes None,
         n\<lparr>notifier_callbacks := notifier_callbacks n
              @ concat (map (\<lambda>cb. subscriptions cb (type, info, msg)) (notifier_callbacks n)),
           notifier_calls := notifier_calls n
              @ map (\<lambda>j. (j, (type, info, msg))) [0..<length (notifier_callbacks n)],
           notifier_cerr := notifier_cerr n
              @ concat (map (\<lambda>cb. cerr_report (raised cb (type, info, msg)))
                         (notifier_callbacks n))\<rparr>)"
  proof
    assume "\<not> mutex_locked n
        \<or> (\<forall>cb\<in>set (notifier_callbacks n). subscriptions cb (type, info, msg) = [])"
    from for_each_callback_locking_returns [OF this, of 0] show "broadcastEvent_locking type info msg n =
        (Completes None,
         n\<lparr>notifier_callbacks := notifier_callbacks n
              @ concat (map (\<lambda>cb. subscriptions cb (type, info, msg)) (notifier_callbacks n)),
           notifier_calls := notifier_calls n
              @ map (\<lambda>j. (j, (type, info, msg))) [0..<length (notifier_callbacks n)],
           notifier_cerr := notifier_cerr n
              @ concat (map (\<lambda>cb. cerr_report (raised cb (type, info, msg)))
                         (notifier_callbacks n))\<rparr>)"
      by (simp add: broadcastEvent_locking_def Let_def)
  qed
  have blocks: "mutex_locked n
        \<and> (\<exists>cb\<in>set (notifier_callbacks n). subscriptions cb (type, info, msg) \<noteq> []) \<longrightarrow>
      fst (broadcastEvent_locking type info msg n) = NeverReturns"
    using for_each_callback_locking_blocks [of n "notifier_callbacks n" "(type, info, msg)" 0]
    by (simp add: broadcastEvent_locking_def Let_def)
  from plain link prefix returns blocks show ?thesis by (intro conjI) blast+
qed

lemma example_subscriptions:
  "subscriptions (plain_callback cb) ev = []"
  "subscriptions subscribing_callback ev = [plain_callback quiet_callback]"
  "raised (plain_callback cb) ev = cb (fst ev) (fst (snd ev)) (snd (snd ev))"
  "raised subscribing_callback ev = None"
  by (simp_all add: plain_callback_def subscribing_callback_def)

theorem C9_witness:
  "fst (broadcastEvent_body Loaded echo_info ''m'' three_subscribers) = None
   \<and> callback_calls (snd (broadcastEvent_body Loaded echo_info ''m'' three_subscribers)) =
       [(0, (Loaded, echo_info, ''m'')), (1, (Loaded, echo_info, ''m'')), (2, (Loaded, echo_info, ''m''))]
   \<and> cerr (snd (broadcastEvent_body Loaded echo_info ''m'' three_subscribers)) =
       [''Exception in ModuleEventCallback: boom'', ''Unknown exception in ModuleEventCallback.'']
   \<and> \<not> mutex_locked open_notifier
   \<and> fst (broadcastEvent_locking Loaded echo_info ''m'' open_notifier) = Completes None
   \<and> notifier_calls (snd (broadcastEvent_locking Loaded echo_info ''m'' open_notifier)) =
       [(0, (Loaded, echo_info, ''m'')), (1, (Loaded, echo_info, ''m'')), (2, (Loaded, echo_info, ''m''))]
   \<and> notifier_cerr (snd (broadcastEvent_locking Loaded echo_info ''m'' open_notifier)) =
       [''Exception in ModuleEventCallback: boom'', ''Unknown exception in ModuleEventCallback.'']
   \<and> notifier_callbacks (snd (broadcastEvent_locking Loaded echo_info ''m'' open_notifier)) =
       [plain_callback failing_callback, subscribing_callback, plain_callback wild_callback,
        plain_callback quiet_callback]
   \<and> mutex_locked held_notifier
   \<and> fst (broadcastEvent_locking Loaded echo_info ''m'' held_notifier) = NeverReturns
   \<and> notifier_calls (snd (broadcastEvent_locking Loaded echo_info ''m'' held_notifier)) =
       [(0, (Loaded, echo_info, ''m'')), (1, (Loaded, echo_info, ''m''))]"
proof -
  have free: "\<not> mutex_locked open_notifier" by (simp add: open_notifier_def)
  have held: "mutex_locked held_notifier" by (simp add: held_notifier_def)
  have subscriber: "\<exists>cb\<in>set (notifier_callbacks held_notifier).
      subscriptions cb (Loaded, echo_info, ''m'') \<noteq> []"
    by (simp add: held_notifier_def open_notifier_def example_subscriptions)
  note open_inst = C9_broadcast_isolates_faults_and_walks_copy
      [of Loaded echo_info "''m''" three_subscribers True open_notifier]
  note held_inst = C9_broadcast_isolates_faults_and_walks_copy
      [of Loaded echo_info "''m''" three_subscribers True held_notifier]
  have plain: "fst (broadcastEvent_body Loaded echo_info ''m'' three_subscribers) = None
      \<and> callback_calls (snd (broadcastEvent_body Loaded echo_info ''m'' three_subscribers)) =
          [(0, (Loaded, echo_info, ''m'')), (1, (Loaded, echo_info, ''m'')), (2, (Loaded, echo_info, ''m''))]
      \<and> cerr (snd (broadcastEvent_body Loaded echo_info ''m'' three_subscribers)) =
          [''Exception in ModuleEventCallback: boom'', ''Unknown exception in ModuleEventCallback.'']"
    using open_inst
    by (simp add: three_subscribers_def subscribeToModuleEvents_def ModuleLoaderSystem_ctor_def
        cerr_line_def failing_callback_def wild_callback_def quiet_callback_def upt_rec)
  from open_inst free have "broadcastEvent_locking Loaded echo_info ''m'' open_notifier =
      (Completes None,
       open_notifier\<lparr>notifier_callbacks := notifier_callbacks open_notifier
            @ concat (map (\<lambda>cb. subscriptions cb (Loaded, echo_info, ''m''))
                (notifier_callbacks open_notifier)),
          notifier_calls := notifier_calls open_notifier
            @ map (\<lambda>j. (j, (Loaded, echo_info, ''m''))) [0..<length (notifier_callbacks open_notifier)],
          notifier_cerr := notifier_cerr open_notifier
            @ concat (map (\<lambda>cb. cerr_report (raised cb (Loaded, echo_info, ''m'')))
                (notifier_callbacks open_notifier))\<rparr>)"
    by blast
  then have opened: "fst (broadcastEvent_locking Loaded echo_info ''m'' open_notifier) = Completes None
      \<and> notifier_calls (snd (broadcastEvent_locking Loaded echo_info ''m'' open_notifier)) =
          [(0, (Loaded, echo_info, ''m'')), (1, (Loaded, echo_info, ''m'')), (2, (Loaded, echo_info, ''m''))]
      \<and> notifier_cerr (snd (broadcastEvent_locking Loaded echo_info ''m'' open_notifier)) =
          [''Exception in ModuleEventCallback: boom'', ''Unknown exception in ModuleEventCallback.'']
      \<and> notifier_callbacks (snd (broadcastEvent_locking Loaded echo_info ''m'' open_notifier)) =
          [plain_callback failing_callback, subscribing_callback, plain_callback wild_callback,
           plain_callback quiet_callback]"
    by (simp add: open_notifier_def example_subscriptions cerr_report_def
        failing_callback_def wild_callback_def upt_rec)
  from held_inst held subscriber
  have never: "fst (broadcastEvent_locking Loaded echo_info ''m'' held_notifier) = NeverReturns"
    by blast
  have stopped: "notifier_calls (snd (broadcastEvent_locking Loaded echo_info ''m'' held_notifier)) =
      [(0, (Loaded, echo_info, ''m'')), (1, (Loaded, echo_info, ''m''))]"
    by (simp add: broadcastEvent_locking_def Let_def held_notifier_def open_notifier_def
        try_callback_locking_def call_callback_def example_subscriptions
        subscribeToModuleEvents_locking_def failing_callback_def)
  from plain free opened held never stopped show ?thesis by blast
qed

subsection \<open>Unloading\<close>

text \<open>
  Claim C8. Unloading a name that is not in the registry returns \<^verbatim>\<open>NotFound\<close>,
  broadcasts one \<^verbatim>\<open>ErrorUnloading\<close> event and changes neither the registry nor
  anything outside the loader.
\<close>

theorem C8_unload_absent_name:
  assumes "map_find n (CppLoadedModules s) = None"
  shows "status (fst (unloadModule env n s)) = NotFound
    \<and> broadcasts (snd (unloadModule env n s)) = broadcasts s @
        [(ErrorUnloading, ModuleInfo_default\<lparr>name := n\<rparr>, ''Module not found for unloading.'')]
    \<and> CppLoadedModules (snd (unloadModule env n s)) = CppLoadedModules s
    \<and> ext_calls (snd (unloadModule env n s)) = ext_calls s"
  using internalUnloadModule_absent [OF assms, of env False]
  by (simp add: unloadModule_def mkResult_def)

theorem C8_witness:
  "map_find ''never-loaded'' (CppLoadedModules echo_loaded) = None
   \<and> status (fst (unloadModule clean_unload_env ''never-loaded'' echo_loaded)) = NotFound
   \<and> CppLoadedModules (snd (unloadModule clean_unload_env ''never-loaded'' echo_loaded)) =
       [(''Echo'', echo_info)]"
proof -
  have h: "map_find ''never-loaded'' (CppLoadedModules echo_loaded) = None" by simp
  show ?thesis using h C8_unload_absent_name [OF h, of clean_unload_env] by simp
qed

text \<open>
  Claim C3. When the module is in the registry with a library handle and \<^verbatim>\<open>dlclose\<close>
  fails, \<^verbatim>\<open>unloadModule\<close> returns \<^verbatim>\<open>Error\<close>, its last broadcast is an
  \<^verbatim>\<open>ErrorUnloading\<close> event (any earlier ones of this call are \<^verbatim>\<open>ErrorUnloading\<close> too)
  and the registry is unchanged: the descriptor is still found under its name.
\<close>

theorem C3_close_failure_keeps_descriptor:
  assumes "map_find n (CppLoadedModules s) = Some d"
    and "libraryHandle d \<noteq> nullptr"
    and "dlclose_result env \<noteq> 0"
  shows "status (fst (unloadModule env n s)) = Error
    \<and> (\<exists>evs msg. broadcasts (snd (unloadModule env n s)) =
           broadcasts s @ evs @ [(ErrorUnloading, d\<lparr>instance := nullptr\<rparr>, msg)]
         \<and> fst ` set evs \<subseteq> {ErrorUnloading})
    \<and> CppLoadedModules (snd (unloadModule env n s)) = CppLoadedModules s
    \<and> map_find n (CppLoadedModules (snd (unloadModule env n s))) = Some d"
  using internalUnloadModule_close_fails [OF assms, of False] assms(1)
  by (auto simp add: unloadModule_def mkResult_def)

theorem C3_witness:
  "map_find ''Echo'' (CppLoadedModules echo_loaded) = Some echo_info
   \<and> libraryHandle echo_info \<noteq> nullptr \<and> dlclose_result busy_unload_env \<noteq> 0
   \<and> status (fst (unloadModule busy_unload_env ''Echo'' echo_loaded)) = Error
   \<and> CppLoadedModules (snd (unloadModule busy_unload_env ''Echo'' echo_loaded)) = [(''Echo'', echo_info)]"
proof -
  have h1: "map_find ''Echo'' (CppLoadedModules echo_loaded) = Some echo_info" by simp
  have h2: "libraryHandle echo_info \<noteq> nullptr" by (simp add: echo_info_def)
  have h3: "dlclose_result busy_unload_env \<noteq> 0" by (simp add: busy_unload_env_def)
  show ?thesis using h1 h2 h3 C3_close_failure_keeps_descriptor [OF h1 h2 h3] by simp
qed

text \<open>
  Claim C10. When \<^verbatim>\<open>unloadModule\<close> returns \<^verbatim>\<open>Success\<close>, a descriptor was registered
  under the name and has been erased; the result and the final \<^verbatim>\<open>Unloaded\<close> event carry
  the same snapshot, whose \<^verbatim>\<open>instance\<close> and \<^verbatim>\<open>libraryHandle\<close> are null and whose name,
  version and path are those of the erased descriptor.
\<close>

theorem C10_unload_snapshot:
  assumes "status (fst (unloadModule env n s)) = Success"
  shows "\<exists>d snap evs. map_find n (CppLoadedModules s) = Some d
    \<and> CppLoadedModules (snd (unloadModule env n s)) = map_erase n (CppLoadedModules s)
    \<and> module (fst (unloadModule env n s)) = Some snap
    \<and> broadcasts (snd (unloadModule env n s)) =
        broadcasts s @ evs @ [(Unloaded, snap, ''Module unloaded successfully.'')]
    \<and> fst ` set evs \<subseteq> {ErrorUnloading}
    \<and> instance snap = nullptr \<and> libraryHandle snap = nullptr
    \<and> name snap = name d \<and> version snap = version d \<and> path snap = path d"
proof (cases "map_find n (CppLoadedModules s)")
  case None
  from internalUnloadModule_absent(1) [OF None, of env False] assms show ?thesis
    by (simp add: unloadModule_def mkResult_def)
next
  case (Some d)
  have closes: "libraryHandle d = nullptr \<or> dlclose_result env = 0"
  proof (rule ccontr)
    assume "\<not> ?thesis"
    then have "libraryHandle d \<noteq> nullptr" "dlclose_result env \<noteq> 0" by auto
    from internalUnloadModule_close_fails(1) [OF Some this, of False] assms show False
      by (simp add: unloadModule_def mkResult_def)
  qed
  let ?snap = "d\<lparr>instance := nullptr, libraryHandle := nullptr\<rparr>"
  from internalUnloadModule_closes(3) [OF Some closes, of False]
  obtain evs where evs: "broadcasts (snd (unloadModule env n s)) =
        broadcasts s @ evs @ [(Unloaded, ?snap, ''Module unloaded successfully.'')]"
      "fst ` set evs \<subseteq> {ErrorUnloading}"
    by (auto simp add: unloadModule_def)
  from internalUnloadModule_closes(1,2) [OF Some closes, of False]
  have "module (fst (unloadModule env n s)) = Some ?snap"
    and "CppLoadedModules (snd (unloadModule env n s)) = map_erase n (CppLoadedModules s)"
    by (simp_all add: unloadModule_def mkResult_def)
  with Some evs show ?thesis by simp
qed

theorem C10_witness:
  "status (fst (unloadModule clean_unload_env ''Echo'' echo_loaded)) = Success
   \<and> module (fst (unloadModule clean_unload_env ''Echo'' echo_loaded)) =
       Some \<lparr>name = ''Echo'', version = ''1.0.0'', path = ''/x/echo.so'',
             libraryHandle = nullptr, instance = nullptr\<rparr>"
proof -
  have h0: "map_find ''Echo'' (CppLoadedModules echo_loaded) = Some echo_info" by simp
  have c: "libraryHandle echo_info = nullptr \<or> dlclose_result clean_unload_env = 0"
    by (simp add: clean_unload_env_def)
  have h: "status (fst (unloadModule clean_unload_env ''Echo'' echo_loaded)) = Success"
    using internalUnloadModule_closes(1) [OF h0 c, of False]
    by (simp add: unloadModule_def mkResult_def)
  from C10_unload_snapshot [OF h] h0 h show ?thesis
    by (auto simp add: echo_info_def)
qed

subsection \<open>The registry invariant\<close>

lemma registry_wf_empty: "registry_wf []"
  by (simp add: registry_wf_def)

lemma registry_wf_assign:
  assumes wf: "registry_wf m"
    and fresh_name: "map_find k m = None"
    and fresh_path: "List.find (\<lambda>pair. path (snd pair) = path v) m = None"
    and own: "name v = k" "libraryHandle v \<noteq> nullptr" "instance v \<noteq> nullptr"
  shows "registry_wf (map_assign k v m)"
proof -
  from fresh_name have k: "k \<notin> fst ` set m" by (simp add: map_find_None_iff)
  from fresh_path have p: "path v \<notin> (\<lambda>e. path (snd e)) ` set m" by (simp add: find_path_None_iff)
  from wf have "sorted_wrt (<) (map fst (map_assign k v m))"
    by (simp add: registry_wf_def sorted_map_assign)
  moreover from wf own have "list_all (\<lambda>e. name (snd e) = fst e \<and> libraryHandle (snd e) \<noteq> nullptr
      \<and> instance (snd e) \<noteq> nullptr) (map_assign k v m)"
    by (simp add: registry_wf_def list_all_iff set_map_assign_absent [OF k])
  moreover from wf p have "distinct (map (\<lambda>e. path (snd e)) (map_assign k v m))"
    by (intro distinct_map_assign [OF k]) (simp_all add: registry_wf_def)
  ultimately show ?thesis by (simp add: registry_wf_def)
qed

lemma registry_wf_erase: "registry_wf m \<Longrightarrow> registry_wf (map_erase k m)"
  using set_map_erase_subset [of k m]
  by (auto simp add: registry_wf_def sorted_map_erase distinct_map_erase list_all_iff)

lemma registry_wf_loadModule:
  assumes "registry_wf (CppLoadedModules s)"
  shows "registry_wf (CppLoadedModules (snd (loadModule env p s)))"
  using loadModule_cases [of p s env] assms
  by (auto intro!: registry_wf_assign)

lemma internalUnloadModule_registry:
  "CppLoadedModules (snd (internalUnloadModule env n r s)) = CppLoadedModules s
   \<or> CppLoadedModules (snd (internalUnloadModule env n r s)) = map_erase n (CppLoadedModules s)"
proof (cases "map_find n (CppLoadedModules s)")
  case None
  then show ?thesis by (simp add: internalUnloadModule_absent)
next
  case (Some d)
  show ?thesis
  proof (cases "libraryHandle d \<noteq> nullptr \<and> dlclose_result env \<noteq> 0")
    case True
    with Some show ?thesis by (simp add: internalUnloadModule_close_fails)
  next
    case False
    then have "libraryHandle d = nullptr \<or> dlclose_result env = 0" by auto
    with Some show ?thesis by (simp add: internalUnloadModule_closes)
  qed
qed

lemma registry_wf_internalUnloadModule:
  assumes "registry_wf (CppLoadedModules s)"
  shows "registry_wf (CppLoadedModules (snd (internalUnloadModule env n r s)))"
  using internalUnloadModule_registry [of env n r s] assms
  by (auto simp add: registry_wf_erase)

lemma reloadModule_registry:
  "CppLoadedModules (snd (reloadModule uenv lenv n s)) = CppLoadedModules s
   \<or> CppLoadedModules (snd (reloadModule uenv lenv n s)) =
       CppLoadedModules (snd (internalUnloadModule uenv n True s))
   \<or> (\<exists>p. CppLoadedModules (snd (reloadModule uenv lenv n s)) =
       CppLoadedModules (snd (loadModule lenv p (snd (internalUnloadModule uenv n True s)))))"
  by (simp add: reloadModule_def Let_def split_beta split: option.splits) blast

lemma registry_wf_reloadModule:
  assumes "registry_wf (CppLoadedModules s)"
  shows "registry_wf (CppLoadedModules (snd (reloadModule uenv lenv n s)))"
  using reloadModule_registry [of uenv lenv n s] assms
  by (auto simp add: registry_wf_internalUnloadModule registry_wf_loadModule)

lemma registry_wf_apply_operation:
  "registry_wf (CppLoadedModules s) \<Longrightarrow> registry_wf (CppLoadedModules (apply_operation operation s))"
  by (cases operation)
     (simp_all add: registry_wf_loadModule registry_wf_internalUnloadModule registry_wf_reloadModule
        unloadModule_def subscribeToModuleEvents_def)

lemma registry_wf_run:
  "registry_wf (CppLoadedModules s) \<Longrightarrow> registry_wf (CppLoadedModules (run ops s))"
  by (induction ops arbitrary: s) (simp_all add: registry_wf_apply_operation)

lemma registry_wf_reachable:
  "registry_wf (CppLoadedModules (run ops (ModuleLoaderSystem_ctor coreAccess)))"
  by (rule registry_wf_run) (simp add: ModuleLoaderSystem_ctor_def registry_wf_empty)

lemma registry_wf_names:
  assumes "registry_wf m"
  shows "map (\<lambda>e. name (snd e)) m = map fst m"
  using assms by (simp add: registry_wf_def list_all_iff)

lemma registry_wf_distinct_names:
  assumes "registry_wf m"
  shows "distinct (map (\<lambda>e. name (snd e)) m)"
proof -
  from assms have "sorted_wrt (<) (map fst m)" by (simp add: registry_wf_def)
  then have "distinct (map fst m)" by (simp add: strict_sorted_iff)
  then show ?thesis unfolding registry_wf_names [OF assms] .
qed

lemma find_path_Some:
  assumes "distinct (map (\<lambda>e. path (snd e)) m)" and "e \<in> set m"
  shows "List.find (\<lambda>pair. path (snd pair) = path (snd e)) m = Some e"
  using assms by (induction m) (auto simp: image_iff)

lemma filter_path_single:
  assumes "distinct (map (\<lambda>e. path (snd e)) m)" and "e \<in> set m"
  shows "filter (\<lambda>x. path (snd x) = path (snd e)) m = [e]"
  using assms
proof (induction m)
  case Nil
  then show ?case by simp
next
  case (Cons x m)
  show ?case
  proof (cases "x = e")
    case True
    from Cons.prems True have "\<forall>y\<in>set m. path (snd y) \<noteq> path (snd e)" by (auto simp: image_iff)
    then have "filter (\<lambda>x. path (snd x) = path (snd e)) m = []" by (simp add: filter_empty_conv)
    with True show ?thesis by simp
  next
    case False
    with Cons.prems have "e \<in> set m" and "distinct (map (\<lambda>e. path (snd e)) m)"
      and "path (snd x) \<noteq> path (snd e)" by (auto simp: image_iff)
    with Cons.IH show ?thesis by simp
  qed
qed

subsection \<open>Uniqueness of names and paths\<close>

text \<open>
  Claim C1. Whatever sequence of loads, unloads, reloads (and subscriptions) is applied
  to a freshly constructed loader, and whatever the libraries and modules answer, the
  descriptors then in the registry have pairwise different names and pairwise different
  paths.
\<close>

theorem C1_registry_unique:
  "distinct (map name (listModules (run ops (ModuleLoaderSystem_ctor coreAccess))))
   \<and> distinct (map path (listModules (run ops (ModuleLoaderSystem_ctor coreAccess))))"
  using registry_wf_reachable [of ops coreAccess]
    registry_wf_distinct_names [of "CppLoadedModules (run ops (ModuleLoaderSystem_ctor coreAccess))"]
  by (simp add: listModules_def registry_wf_def comp_def)

theorem C1_witness:
  "listModules (run example_ops (ModuleLoaderSystem_ctor 1)) = [alpha_info, echo_info]
   \<and> distinct (map name (listModules (run example_ops (ModuleLoaderSystem_ctor 1))))
   \<and> distinct (map path (listModules (run example_ops (ModuleLoaderSystem_ctor 1))))"
  using C1_registry_unique [of example_ops 1]
  by (simp add: example_ops_def listModules_def eval_defs)

subsection \<open>Loading\<close>

text \<open>
  Claim C5. In a loader reached from a fresh one, loading the path of a registered
  descriptor again returns \<^verbatim>\<open>Error\<close> with the message that the path is already loaded
  and with that descriptor; the loader is left exactly as it was, so nothing is
  broadcast and nothing outside is called; the registry holds exactly one descriptor
  with that path.
\<close>

theorem C5_second_load_of_path_rejected:
  assumes "s = run ops (ModuleLoaderSystem_ctor coreAccess)"
    and "d \<in> set (listModules s)"
  shows "loadModule env (path d) s =
           (mkResult Error (''Module from this path is already loaded: '' @ path d) (Some d), s)
    \<and> length (filter (\<lambda>x. path x = path d) (listModules s)) = 1"
proof -
  from assms(2) obtain e where e: "e \<in> set (CppLoadedModules s)" "snd e = d"
    by (auto simp add: listModules_def)
  have dist: "distinct (map (\<lambda>e. path (snd e)) (CppLoadedModules s))"
    using registry_wf_reachable [of ops coreAccess] assms(1) by (simp add: registry_wf_def)
  from find_path_Some [OF dist e(1)] e(2)
  have "loadModule env (path d) s =
      (mkResult Error (''Module from this path is already loaded: '' @ path d) (Some d), s)"
    by (simp add: loadModule_def)
  moreover have "filter (\<lambda>x. path x = path d) (listModules s) = [d]"
    using filter_path_single [OF dist e(1)] e(2)
    by (simp add: listModules_def filter_map comp_def)
  ultimately show ?thesis by simp
qed

theorem C5_witness:
  "echo_info \<in> set (listModules echo_loaded)
   \<and> loadModule alpha_env ''/x/echo.so'' echo_loaded =
       (mkResult Error ''Module from this path is already loaded: /x/echo.so'' (Some echo_info),
        echo_loaded)
   \<and> length (filter (\<lambda>x. path x = ''/x/echo.so'') (listModules echo_loaded)) = 1"
proof -
  have h1: "echo_loaded = run [Load ''/x/echo.so'' echo_env] (ModuleLoaderSystem_ctor 1)"
    by (simp add: echo_loaded_def)
  have h2: "echo_info \<in> set (listModules echo_loaded)" by (simp add: listModules_def)
  have p: "path echo_info = ''/x/echo.so''" by (simp add: echo_info_def)
  from C5_second_load_of_path_rejected [OF h1 h2, of alpha_env] h2 show ?thesis
    unfolding p by simp
qed

text \<open>
  Claim C6. When the path is new, the library opens, the factory returns an instance,
  \<^verbatim>\<open>initialize\<close> returns, and the reported name is already a key of the registry, then
  \<^verbatim>\<open>loadModule\<close> calls the destructor symbol on the instance if \<^verbatim>\<open>dlsym\<close> found it,
  closes the library, broadcasts exactly one event, an \<^verbatim>\<open>ErrorLoading\<close> with the
  duplicate-name message, returns \<^verbatim>\<open>Error\<close>, and leaves the registry as it was.
\<close>

theorem C6_duplicate_name_rejected:
  assumes "List.find (\<lambda>pair. path (snd pair) = p) (CppLoadedModules s) = None"
    and "dlopen_result env \<noteq> nullptr"
    and "dlsym_create env \<noteq> nullptr"
    and "createFunc_outcome env = Returns inst" and "inst \<noteq> nullptr"
    and "initialize_outcome env = Returns ()"
    and "map_find (getName_result env) (CppLoadedModules s) = Some existing"
  shows "fst (loadModule env p s) =
      mkResult Error (''Module with name '' @ [CHR 0x27] @ getName_result env @ [CHR 0x27]
                      @ '' already loaded. Module names must be unique.'')
        (Some (ModuleInfo_default\<lparr>path := p, name := getName_result env\<rparr>))
    \<and> ext_calls (snd (loadModule env p s)) = ext_calls s @
        [Dlopen p, Dlsym (dlopen_result env) CREATE_MODULE_FUNC_NAME,
         Dlsym (dlopen_result env) DESTROY_MODULE_FUNC_NAME, CreateFunc,
         Initialize inst (CppCoreAccess s), GetName inst]
        @ (if dlsym_destroy env \<noteq> nullptr then [DestroyFunc inst] else [])
        @ [Dlclose (dlopen_result env)]
    \<and> broadcasts (snd (loadModule env p s)) = broadcasts s @
        [(ErrorLoading, ModuleInfo_default\<lparr>path := p, name := getName_result env\<rparr>,
          ''Module with name '' @ [CHR 0x27] @ getName_result env @ [CHR 0x27]
          @ '' already loaded. Module names must be unique.'')]
    \<and> CppLoadedModules (snd (loadModule env p s)) = CppLoadedModules s"
  using assms
  by (simp add: loadModule_def loadModule_create_def loadModule_initialize_def Let_def
      map_count_def load_error_def)

theorem C6_witness:
  "fst (loadModule echo_env ''/x/echo_copy.so'' echo_loaded) =
     mkResult Error ''Module with name 'Echo' already loaded. Module names must be unique.''
       (Some \<lparr>name = ''Echo'', version = [], path = ''/x/echo_copy.so'',
              libraryHandle = nullptr, instance = nullptr\<rparr>)
   \<and> ext_calls (snd (loadModule echo_env ''/x/echo_copy.so'' echo_loaded)) =
       ext_calls echo_loaded @
       [Dlopen ''/x/echo_copy.so'', Dlsym 100 CREATE_MODULE_FUNC_NAME,
        Dlsym 100 DESTROY_MODULE_FUNC_NAME, CreateFunc, Initialize 300 1, GetName 300,
        DestroyFunc 300, Dlclose 100]
   \<and> CppLoadedModules (snd (loadModule echo_env ''/x/echo_copy.so'' echo_loaded)) =
       [(''Echo'', echo_info)]"
proof -
  have h1: "List.find (\<lambda>pair. path (snd pair) = ''/x/echo_copy.so'') (CppLoadedModules echo_loaded) = None"
    by (simp add: echo_info_def)
  have h2: "dlopen_result echo_env \<noteq> nullptr" and h3: "dlsym_create echo_env \<noteq> nullptr"
    and h4: "createFunc_outcome echo_env = Returns 300" and h5: "(300::nat) \<noteq> nullptr"
    and h6: "initialize_outcome echo_env = Returns ()"
    by (simp_all add: echo_env_def)
  have h7: "map_find (getName_result echo_env) (CppLoadedModules echo_loaded) = Some echo_info"
    by (simp add: echo_env_def)
  have ca: "CppCoreAccess echo_loaded = 1" by (simp add: echo_loaded_eq)
  from C6_duplicate_name_rejected [OF h1 h2 h3 h4 h5 h6 h7] show ?thesis
    by (simp add: ca echo_env_def ModuleInfo_default_def)
qed

text \<open>
  Claim C2. If \<^verbatim>\<open>loadModule\<close> succeeds and returns a descriptor, then unloading that
  descriptor's name right afterwards, with \<^verbatim>\<open>dlclose\<close> returning 0, returns
  \<^verbatim>\<open>Success\<close> and the registry is what it was before the load.
\<close>

theorem C2_load_then_unload_restores_registry:
  assumes "loadModule lenv p s = (r, s1)"
    and "status r = Success"
    and "module r = Some d"
    and "dlclose_result uenv = 0"
  shows "status (fst (unloadModule uenv (name d) s1)) = Success
    \<and> CppLoadedModules (snd (unloadModule uenv (name d) s1)) = CppLoadedModules s"
proof -
  let ?n = "getName_result lenv"
  from loadModule_cases [of p s lenv] assms(1,2)
  obtain inst where fresh: "map_find ?n (CppLoadedModules s) = None"
    and r: "r = mkResult Success ''Module loaded successfully.''
          (Some \<lparr>name = ?n, version = getVersion_result lenv, path = p,
                 libraryHandle = dlopen_result lenv, instance = inst\<rparr>)"
    and reg: "CppLoadedModules s1 = map_assign ?n
          \<lparr>name = ?n, version = getVersion_result lenv, path = p,
           libraryHandle = dlopen_result lenv, instance = inst\<rparr> (CppLoadedModules s)"
    by auto
  from r assms(3) have d: "d = \<lparr>name = ?n, version = getVersion_result lenv, path = p,
      libraryHandle = dlopen_result lenv, instance = inst\<rparr>"
    by (simp add: mkResult_def)
  then have n: "name d = ?n" by simp
  from reg d have found: "map_find (name d) (CppLoadedModules s1) = Some d"
    by (simp add: map_find_assign_same)
  from assms(4) have closes: "libraryHandle d = nullptr \<or> dlclose_result uenv = 0" by simp
  from fresh have absent: "?n \<notin> fst ` set (CppLoadedModules s)" by (simp add: map_find_None_iff)
  from internalUnloadModule_closes(1,2) [OF found closes, of False] reg n d absent
  show ?thesis by (simp add: unloadModule_def mkResult_def map_erase_assign)
qed

theorem C2_witness:
  "loadModule echo_env ''/x/echo.so'' (ModuleLoaderSystem_ctor 1) =
     (mkResult Success ''Module loaded successfully.'' (Some echo_info), echo_loaded)
   \<and> status (fst (unloadModule clean_unload_env ''Echo'' echo_loaded)) = Success
   \<and> CppLoadedModules (snd (unloadModule clean_unload_env ''Echo'' echo_loaded)) = []"
proof -
  have h1: "loadModule echo_env ''/x/echo.so'' (ModuleLoaderSystem_ctor 1) =
      (mkResult Success ''Module loaded successfully.'' (Some echo_info), echo_loaded)"
    by (rule echo_load_result)
  have h2: "status (mkResult Success ''Module loaded successfully.'' (Some echo_info)) = Success"
    and h3: "module (mkResult Success ''Module loaded successfully.'' (Some echo_info)) = Some echo_info"
    by (simp_all add: mkResult_def)
  have h4: "dlclose_result clean_unload_env = 0" by (simp add: clean_unload_env_def)
  have n: "name echo_info = ''Echo''" by (simp add: echo_info_def)
  from C2_load_then_unload_restores_registry [OF h1 h2 h3 h4] h1 show ?thesis
    unfolding n by (simp add: ModuleLoaderSystem_ctor_def)
qed

subsection \<open>Reloading\<close>

lemma count_events_other:
  assumes "fst ` set evs \<subseteq> {t'}" and "t \<noteq> t'"
  shows "count_events t evs = 0"
  using assms by (auto simp add: count_events_def filter_empty_conv)

lemma count_events_append [simp]:
  "count_events t (xs @ ys) = count_events t xs + count_events t ys"
  by (simp add: count_events_def)

lemma events_since_append: "broadcasts s' = broadcasts s @ evs \<Longrightarrow> events_since s s' = evs"
  by (simp add: events_since_def)





subsection \<open>Teardown\<close>

lemma map_find_mem_distinct:
  assumes "distinct (map fst m)" and "(k, d) \<in> set m"
  shows "map_find k m = Some d"
  using assms
proof (induction m)
  case Nil
  then show ?case by simp
next
  case (Cons e m)
  obtain k' v' where e: "e = (k', v')" by (cases e)
  show ?case
  proof (cases "k = k'")
    case True
    from Cons.prems e have "k' \<notin> fst ` set m" by simp
    with Cons.prems(2) e True have "d = v'" by (auto simp: image_iff)
    with True e show ?thesis by simp
  next
    case False
    with Cons e show ?thesis by auto
  qed
qed

lemma unload_shutdown_calls:
  "ext_calls (unload_shutdown env n d s) =
     ext_calls s @ (if instance d \<noteq> nullptr then [Shutdown (instance d)] else [])"
  by (simp add: unload_shutdown_def Let_def split: outcome.splits exn.splits)

lemma internalUnloadModule_calls_mono:
  "\<exists>cs. ext_calls (snd (internalUnloadModule env n r s)) = ext_calls s @ cs"
proof (cases "map_find n (CppLoadedModules s)")
  case None
  then show ?thesis by (simp add: internalUnloadModule_absent)
next
  case (Some d)
  show ?thesis
  proof (cases "libraryHandle d \<noteq> nullptr \<and> dlclose_result env \<noteq> 0")
    case True
    with internalUnloadModule_close_fails(4) [OF Some, of env r] show ?thesis by auto
  next
    case False
    then have "libraryHandle d = nullptr \<or> dlclose_result env = 0" by auto
    from internalUnloadModule_closes(4) [OF Some this, of r] show ?thesis by auto
  qed
qed

lemma internalUnloadModule_calls_present:
  assumes "map_find n (CppLoadedModules s) = Some d"
    and "libraryHandle d \<noteq> nullptr" and "instance d \<noteq> nullptr"
  shows "\<exists>cs. ext_calls (snd (internalUnloadModule env n r s)) = ext_calls s @ cs
    \<and> Shutdown (instance d) \<in> set cs \<and> Dlclose (libraryHandle d) \<in> set cs"
proof -
  obtain cs where cs: "ext_calls (unload_destroy env n d (unload_shutdown env n d s)) =
      ext_calls s @ [Shutdown (instance d)] @ cs"
    using unload_destroy_ext_calls [of env n d "unload_shutdown env n d s"] assms(3)
    by (auto simp add: unload_shutdown_calls)
  show ?thesis
    using assms(1,2) cs
    by (auto simp add: internalUnloadModule_def Let_def)
qed

lemma internalUnloadModule_find_other:
  "k \<noteq> n \<Longrightarrow> map_find k (CppLoadedModules (snd (internalUnloadModule env n r s)))
     = map_find k (CppLoadedModules s)"
  using internalUnloadModule_registry [of env n r s]
  by (auto simp add: map_find_erase_other)

lemma internalUnloadModule_suppressed_broadcasts:
  "\<exists>evs. broadcasts (snd (internalUnloadModule env n True s)) = broadcasts s @ evs
     \<and> fst ` set evs \<subseteq> {ErrorUnloading}"
proof (cases "map_find n (CppLoadedModules s)")
  case None
  then show ?thesis by (simp add: internalUnloadModule_absent)
next
  case (Some d)
  show ?thesis
  proof (cases "libraryHandle d \<noteq> nullptr \<and> dlclose_result env \<noteq> 0")
    case True
    with internalUnloadModule_close_fails(3) [OF Some, of env True]
    obtain evs where "broadcasts (snd (internalUnloadModule env n True s)) = broadcasts s @
        (evs @ [(ErrorUnloading, d\<lparr>instance := nullptr\<rparr>,
           ''Failed to free library for module '' @ n @ '' (Error: '' @ dlclose_error env @ '')'')])"
      and "fst ` set evs \<subseteq> {ErrorUnloading}" by auto
    then have "broadcasts (snd (internalUnloadModule env n True s)) = broadcasts s @
        (evs @ [(ErrorUnloading, d\<lparr>instance := nullptr\<rparr>,
           ''Failed to free library for module '' @ n @ '' (Error: '' @ dlclose_error env @ '')'')])
      \<and> fst ` set (evs @ [(ErrorUnloading, d\<lparr>instance := nullptr\<rparr>,
           ''Failed to free library for module '' @ n @ '' (Error: '' @ dlclose_error env @ '')'')])
         \<subseteq> {ErrorUnloading}" by simp
    then show ?thesis by blast
  next
    case False
    then have "libraryHandle d = nullptr \<or> dlclose_result env = 0" by auto
    from internalUnloadModule_closes(3) [OF Some this, of True] show ?thesis by simp
  qed
qed

lemma unload_each_broadcasts:
  "\<exists>evs. broadcasts (unload_each env ns s) = broadcasts s @ evs
     \<and> fst ` set evs \<subseteq> {ErrorUnloading}"
proof (induction ns arbitrary: s)
  case Nil
  show ?case by simp
next
  case (Cons n ns)
  let ?s1 = "snd (internalUnloadModule (env n) n True s)"
  obtain evs1 where 1: "broadcasts ?s1 = broadcasts s @ evs1" "fst ` set evs1 \<subseteq> {ErrorUnloading}"
    using internalUnloadModule_suppressed_broadcasts [of "env n" n s] by blast
  obtain evs2 where 2: "broadcasts (unload_each env ns ?s1) = broadcasts ?s1 @ evs2"
      "fst ` set evs2 \<subseteq> {ErrorUnloading}"
    using Cons.IH [of ?s1] by blast
  from 1 2 have "broadcasts (unload_each env (n # ns) s) = broadcasts s @ (evs1 @ evs2)
      \<and> fst ` set (evs1 @ evs2) \<subseteq> {ErrorUnloading}" by auto
  then show ?case by blast
qed

lemma unload_each_calls_mono:
  "\<exists>cs. ext_calls (unload_each env ns s) = ext_calls s @ cs"
proof (induction ns arbitrary: s)
  case Nil
  show ?case by simp
next
  case (Cons n ns)
  let ?s1 = "snd (internalUnloadModule (env n) n True s)"
  obtain cs1 where 1: "ext_calls ?s1 = ext_calls s @ cs1"
    using internalUnloadModule_calls_mono [of "env n" n True s] by blast
  obtain cs2 where 2: "ext_calls (unload_each env ns ?s1) = ext_calls ?s1 @ cs2"
    using Cons.IH [of ?s1] by blast
  from 1 2 have "ext_calls (unload_each env (n # ns) s) = ext_calls s @ (cs1 @ cs2)" by simp
  then show ?case by blast
qed

lemma unload_each_calls_present:
  assumes "k \<in> set ns" and "distinct ns"
    and "map_find k (CppLoadedModules s) = Some d"
    and "libraryHandle d \<noteq> nullptr" and "instance d \<noteq> nullptr"
  shows "\<exists>cs. ext_calls (unload_each env ns s) = ext_calls s @ cs
    \<and> Shutdown (instance d) \<in> set cs \<and> Dlclose (libraryHandle d) \<in> set cs"
  using assms
proof (induction ns arbitrary: s)
  case Nil
  then show ?case by simp
next
  case (Cons n ns)
  let ?s1 = "snd (internalUnloadModule (env n) n True s)"
  show ?case
  proof (cases "k = n")
    case True
    from internalUnloadModule_calls_present [of n s d "env n" True] Cons.prems True
    obtain cs1 where 1: "ext_calls ?s1 = ext_calls s @ cs1"
        "Shutdown (instance d) \<in> set cs1" "Dlclose (libraryHandle d) \<in> set cs1"
      by auto
    obtain cs2 where 2: "ext_calls (unload_each env ns ?s1) = ext_calls ?s1 @ cs2"
      using unload_each_calls_mono [of env ns ?s1] by blast
    from 1 2 have "ext_calls (unload_each env (n # ns) s) = ext_calls s @ (cs1 @ cs2)
        \<and> Shutdown (instance d) \<in> set (cs1 @ cs2) \<and> Dlclose (libraryHandle d) \<in> set (cs1 @ cs2)"
      by simp
    then show ?thesis by blast
  next
    case False
    with Cons.prems have k: "k \<in> set ns" "distinct ns" by auto
    from False Cons.prems(3) have f: "map_find k (CppLoadedModules ?s1) = Some d"
      by (simp add: internalUnloadModule_find_other)
    obtain cs1 where 1: "ext_calls ?s1 = ext_calls s @ cs1"
      using internalUnloadModule_calls_mono [of "env n" n True s] by blast
    from Cons.IH [OF k f Cons.prems(4,5)]
    obtain cs2 where 2: "ext_calls (unload_each env ns ?s1) = ext_calls ?s1 @ cs2"
        "Shutdown (instance d) \<in> set cs2" "Dlclose (libraryHandle d) \<in> set cs2"
      by blast
    from 1 2 have "ext_calls (unload_each env (n # ns) s) = ext_calls s @ (cs1 @ cs2)
        \<and> Shutdown (instance d) \<in> set (cs1 @ cs2) \<and> Dlclose (libraryHandle d) \<in> set (cs1 @ cs2)"
      by simp
    then show ?thesis by blast
  qed
qed

lemma dtor_fields:
  "CppLoadedModules (ModuleLoaderSystem_dtor env s) = []"
  "broadcasts (ModuleLoaderSystem_dtor env s) =
     broadcasts (unload_each env (map fst (CppLoadedModules s)) s)"
  "ext_calls (ModuleLoaderSystem_dtor env s) =
     ext_calls (unload_each env (map fst (CppLoadedModules s)) s)"
  by (simp_all add: ModuleLoaderSystem_dtor_def Let_def)

lemma map_erase_filter:
  "distinct (map fst m) \<Longrightarrow> map_erase k m = filter (\<lambda>e. fst e \<noteq> k) m"
proof (induction m)
  case Nil
  show ?case by simp
next
  case (Cons e m)
  obtain k' v' where e: "e = (k', v')" by (cases e)
  from Cons.prems e have tail: "distinct (map fst m)" and fresh: "k' \<notin> fst ` set m" by auto
  show ?case
  proof (cases "k = k'")
    case True
    with fresh have "\<forall>x\<in>set m. fst x \<noteq> k" by auto
    then have "filter (\<lambda>e. fst e \<noteq> k) m = m" by (simp add: filter_id_conv)
    with True e show ?thesis by simp
  next
    case False
    with Cons.IH [OF tail] e show ?thesis by auto
  qed
qed

lemma filter_key_absent:
  assumes "k \<notin> fst ` set m"
  shows "filter (\<lambda>e. fst e \<noteq> k \<or> P) m = m"
  using assms by (auto simp add: filter_id_conv)

lemma internalUnloadModule_registry_filter:
  assumes dist: "distinct (map fst (CppLoadedModules s))"
    and handles: "\<forall>e\<in>set (CppLoadedModules s). libraryHandle (snd e) \<noteq> nullptr"
  shows "CppLoadedModules (snd (internalUnloadModule env n r s)) =
     filter (\<lambda>e. fst e \<noteq> n \<or> dlclose_result env \<noteq> 0) (CppLoadedModules s)"
proof (cases "map_find n (CppLoadedModules s)")
  case None
  then have "n \<notin> fst ` set (CppLoadedModules s)" by (simp add: map_find_None_iff)
  from filter_key_absent [OF this] None show ?thesis
    by (simp add: internalUnloadModule_absent)
next
  case (Some d)
  from map_find_Some_mem [OF Some] handles have h: "libraryHandle d \<noteq> nullptr" by force
  show ?thesis
  proof (cases "dlclose_result env = 0")
    case True
    then have "libraryHandle d = nullptr \<or> dlclose_result env = 0" by simp
    from internalUnloadModule_closes(2) [OF Some this, of r] True show ?thesis
      by (simp add: map_erase_filter [OF dist])
  next
    case False
    from internalUnloadModule_close_fails(2) [OF Some h False, of r] False show ?thesis
      by simp
  qed
qed

lemma unload_each_registry_filter:
  assumes "distinct (map fst (CppLoadedModules s))"
    and "\<forall>e\<in>set (CppLoadedModules s). libraryHandle (snd e) \<noteq> nullptr"
  shows "CppLoadedModules (unload_each env ns s) =
     filter (\<lambda>e. fst e \<notin> set ns \<or> dlclose_result (env (fst e)) \<noteq> 0) (CppLoadedModules s)"
  using assms
proof (induction ns arbitrary: s)
  case Nil
  show ?case by simp
next
  case (Cons n ns)
  let ?s1 = "snd (internalUnloadModule (env n) n True s)"
  have step: "CppLoadedModules ?s1 =
      filter (\<lambda>e. fst e \<noteq> n \<or> dlclose_result (env n) \<noteq> 0) (CppLoadedModules s)"
    by (rule internalUnloadModule_registry_filter [OF Cons.prems])
  have dist1: "distinct (map fst (CppLoadedModules ?s1))"
    unfolding step using Cons.prems(1) by (rule distinct_map_filter)
  have handles1: "\<forall>e\<in>set (CppLoadedModules ?s1). libraryHandle (snd e) \<noteq> nullptr"
    unfolding step using Cons.prems(2) by simp
  have "CppLoadedModules (unload_each env (n # ns) s) =
      filter (\<lambda>e. fst e \<notin> set ns \<or> dlclose_result (env (fst e)) \<noteq> 0) (CppLoadedModules ?s1)"
    using Cons.IH [OF dist1 handles1] by simp
  also have "\<dots> = filter (\<lambda>e. fst e \<notin> set (n # ns) \<or> dlclose_result (env (fst e)) \<noteq> 0)
      (CppLoadedModules s)"
    unfolding step filter_filter by (rule filter_cong) auto
  finally show ?case .
qed

lemma dtor_loop_registry:
  assumes wf: "registry_wf (CppLoadedModules s)"
  shows "CppLoadedModules (unload_each env (map fst (CppLoadedModules s)) s) =
     filter (\<lambda>e. dlclose_result (env (fst e)) \<noteq> 0) (CppLoadedModules s)"
proof -
  from wf have dist: "distinct (map fst (CppLoadedModules s))"
    by (simp add: registry_wf_def strict_sorted_iff)
  from wf have handles: "\<forall>e\<in>set (CppLoadedModules s). libraryHandle (snd e) \<noteq> nullptr"
    by (simp add: registry_wf_def list_all_iff)
  have "CppLoadedModules (unload_each env (map fst (CppLoadedModules s)) s) =
      filter (\<lambda>e. fst e \<notin> set (map fst (CppLoadedModules s)) \<or> dlclose_result (env (fst e)) \<noteq> 0)
        (CppLoadedModules s)"
    by (rule unload_each_registry_filter [OF dist handles])
  also have "\<dots> = filter (\<lambda>e. dlclose_result (env (fst e)) \<noteq> 0) (CppLoadedModules s)"
    by (rule filter_cong) auto
  finally show ?thesis .
qed

lemma dtor_loop_retains:
  assumes wf: "registry_wf (CppLoadedModules s)"
    and d: "d \<in> set (listModules s)"
    and fails: "dlclose_result (env (name d)) \<noteq> 0"
  shows "map_find (name d) (CppLoadedModules (unload_each env (map fst (CppLoadedModules s)) s)) = Some d"
proof -
  from d obtain k where mem: "(k, d) \<in> set (CppLoadedModules s)"
    by (auto simp add: listModules_def)
  from wf mem have k: "name d = k" by (auto simp add: registry_wf_def list_all_iff)
  from wf have dist: "distinct (map fst (CppLoadedModules s))"
    by (simp add: registry_wf_def strict_sorted_iff)
  let ?m = "filter (\<lambda>e. dlclose_result (env (fst e)) \<noteq> 0) (CppLoadedModules s)"
  from dist have "distinct (map fst ?m)" by (rule distinct_map_filter)
  moreover from mem fails k have "(k, d) \<in> set ?m" by simp
  ultimately have "map_find k ?m = Some d" by (rule map_find_mem_distinct)
  with k show ?thesis by (simp add: dtor_loop_registry [OF wf])
qed

text \<open>
  Claim C7, as the code has it. In a loader reached from a fresh one, the destructor
  is the loop over the registered names followed by \<^verbatim>\<open>clear()\<close>. The loop passes
  every name to the event-suppressed internal unload. When the loop ends, the registry
  holds exactly the descriptors whose \<^verbatim>\<open>dlclose\<close> failed, each still found under its
  name, and the others are erased. Every registered module got its \<^verbatim>\<open>shutdown\<close> call
  and its library its \<^verbatim>\<open>dlclose\<close> call, whatever the earlier unloads of the teardown
  did, and no \<^verbatim>\<open>Unloaded\<close> event was broadcast. Then the destructor clears the
  registry: a descriptor whose \<^verbatim>\<open>dlclose\<close> failed is dropped with the rest.
\<close>

theorem C7_teardown_keeps_failed_until_clear:
  assumes "s = run ops (ModuleLoaderSystem_ctor coreAccess)"
  shows "ModuleLoaderSystem_dtor env s =
        (unload_each env (map fst (CppLoadedModules s)) s)\<lparr>CppLoadedModules := []\<rparr>
    \<and> CppLoadedModules (unload_each env (map fst (CppLoadedModules s)) s) =
        filter (\<lambda>e. dlclose_result (env (fst e)) \<noteq> 0) (CppLoadedModules s)
    \<and> (\<forall>d\<in>set (listModules s). dlclose_result (env (name d)) \<noteq> 0 \<longrightarrow>
          map_find (name d) (CppLoadedModules (unload_each env (map fst (CppLoadedModules s)) s))
            = Some d)
    \<and> CppLoadedModules (ModuleLoaderSystem_dtor env s) = []
    \<and> count_events Unloaded (events_since s (ModuleLoaderSystem_dtor env s)) = 0
    \<and> (\<forall>d\<in>set (listModules s).
          Shutdown (instance d) \<in> set (calls_since s (ModuleLoaderSystem_dtor env s))
          \<and> Dlclose (libraryHandle d) \<in> set (calls_since s (ModuleLoaderSystem_dtor env s)))"
proof -
  have wf: "registry_wf (CppLoadedModules s)"
    using registry_wf_reachable [of ops coreAccess] assms by simp
  then have dist: "distinct (map fst (CppLoadedModules s))"
    by (simp add: registry_wf_def strict_sorted_iff)
  have shape: "ModuleLoaderSystem_dtor env s =
      (unload_each env (map fst (CppLoadedModules s)) s)\<lparr>CppLoadedModules := []\<rparr>"
    by (simp add: ModuleLoaderSystem_dtor_def Let_def)
  have loop: "CppLoadedModules (unload_each env (map fst (CppLoadedModules s)) s) =
      filter (\<lambda>e. dlclose_result (env (fst e)) \<noteq> 0) (CppLoadedModules s)"
    by (rule dtor_loop_registry [OF wf])
  have kept: "\<forall>d\<in>set (listModules s). dlclose_result (env (name d)) \<noteq> 0 \<longrightarrow>
      map_find (name d) (CppLoadedModules (unload_each env (map fst (CppLoadedModules s)) s)) = Some d"
    using dtor_loop_retains [OF wf] by blast
  obtain evs where evs: "broadcasts (ModuleLoaderSystem_dtor env s) = broadcasts s @ evs"
      "fst ` set evs \<subseteq> {ErrorUnloading}"
    using unload_each_broadcasts [of env "map fst (CppLoadedModules s)" s]
    by (auto simp add: dtor_fields)
  have quiet: "count_events Unloaded (events_since s (ModuleLoaderSystem_dtor env s)) = 0"
    using events_since_append [OF evs(1)] count_events_other [OF evs(2), of Unloaded] by simp
  have calls: "Shutdown (instance d) \<in> set (calls_since s (ModuleLoaderSystem_dtor env s))
      \<and> Dlclose (libraryHandle d) \<in> set (calls_since s (ModuleLoaderSystem_dtor env s))"
    if "d \<in> set (listModules s)" for d
  proof -
    from that obtain k where mem: "(k, d) \<in> set (CppLoadedModules s)"
      by (auto simp add: listModules_def)
    from wf mem have ptrs: "libraryHandle d \<noteq> nullptr" "instance d \<noteq> nullptr"
      by (auto simp add: registry_wf_def list_all_iff)
    from mem have k: "k \<in> set (map fst (CppLoadedModules s))" by force
    from unload_each_calls_present [OF k dist map_find_mem_distinct [OF dist mem] ptrs, of env]
    obtain cs where "ext_calls (ModuleLoaderSystem_dtor env s) = ext_calls s @ cs"
        "Shutdown (instance d) \<in> set cs" "Dlclose (libraryHandle d) \<in> set cs"
      by (auto simp add: dtor_fields)
    then show ?thesis by (simp add: calls_since_def)
  qed
  have empty: "CppLoadedModules (ModuleLoaderSystem_dtor env s) = []"
    by (rule dtor_fields(1))
  show ?thesis
  proof (intro conjI)
    show "\<forall>d\<in>set (listModules s).
        Shutdown (instance d) \<in> set (calls_since s (ModuleLoaderSystem_dtor env s))
        \<and> Dlclose (libraryHandle d) \<in> set (calls_since s (ModuleLoaderSystem_dtor env s))"
      using calls by blast
  qed (fact shape loop kept empty quiet)+
qed

theorem C7_witness:
  "CppLoadedModules (unload_each always_busy (map fst (CppLoadedModules echo_loaded)) echo_loaded) =
     [(''Echo'', echo_info)]
   \<and> map_find ''Echo'' (CppLoadedModules
        (unload_each always_busy (map fst (CppLoadedModules echo_loaded)) echo_loaded)) = Some echo_info
   \<and> CppLoadedModules (ModuleLoaderSystem_dtor always_busy echo_loaded) = []
   \<and> count_events Unloaded (events_since echo_loaded (ModuleLoaderSystem_dtor always_busy echo_loaded)) = 0
   \<and> Shutdown 300 \<in> set (calls_since echo_loaded (ModuleLoaderSystem_dtor always_busy echo_loaded))
   \<and> Dlclose 100 \<in> set (calls_since echo_loaded (ModuleLoaderSystem_dtor always_busy echo_loaded))"
proof -
  have h: "echo_loaded = run [Load ''/x/echo.so'' echo_env] (ModuleLoaderSystem_ctor 1)"
    by (simp add: echo_loaded_def)
  have fails: "dlclose_result (always_busy ''Echo'') \<noteq> 0"
    by (simp add: always_busy_def busy_unload_env_def)
  have listed: "listModules echo_loaded = [echo_info]" by (simp add: listModules_def)
  have fields: "name echo_info = ''Echo''" "instance echo_info = 300" "libraryHandle echo_info = 100"
    by (simp_all add: echo_info_def)
  note inst = C7_teardown_keeps_failed_until_clear [OF h, of always_busy, THEN conjunct2]
  from inst fails show ?thesis
    unfolding listed by (simp add: fields del: unload_each.simps)
qed

text \<open>
  The claim as stated fails: with \<open>Echo\<close> loaded and a \<^verbatim>\<open>dlclose\<close> that fails, the
  internal unload returns \<^verbatim>\<open>Error\<close>, the descriptor is still registered when the loop
  of the destructor ends, and the destructor ends with no descriptor for \<open>Echo\<close>.
\<close>

theorem C7_counterexample:
  "map_find ''Echo'' (CppLoadedModules echo_loaded) = Some echo_info
   \<and> status (fst (internalUnloadModule (always_busy ''Echo'') ''Echo'' True echo_loaded)) = Error
   \<and> map_find ''Echo'' (CppLoadedModules
        (snd (internalUnloadModule (always_busy ''Echo'') ''Echo'' True echo_loaded))) = Some echo_info
   \<and> map_find ''Echo'' (CppLoadedModules
        (unload_each always_busy (map fst (CppLoadedModules echo_loaded)) echo_loaded)) = Some echo_info
   \<and> map_find ''Echo'' (CppLoadedModules (ModuleLoaderSystem_dtor always_busy echo_loaded)) = None"
  by (simp add: echo_loaded_eq always_busy_def ModuleLoaderSystem_dtor_def eval_defs
      os_call_def broadcastEvent_def broadcastEvent_body_def)

end
